theory Spec2Isabelle
  imports Main "HOL-Library.Word" "HOL-Library.Monad_Syntax"
begin

unbundle bit_operations_syntax

section \<open>Machine types and the memory mapping\<close>

text \<open>
  The library is POSIX code (\<open>mmap\<close>, \<open>fstat\<close>); the model is the LP64 instance:
  \<open>uintptr_t\<close>, \<open>size_t\<close>, \<open>void *\<close> and \<open>uint64_t\<close> are 64-bit words whose
  arithmetic wraps, \<open>uint32_t\<close> and \<open>uint16_t\<close> are 32-bit and 16-bit words.
  A pointer is its address; \<open>NULL\<close> is the address 0.
\<close>

type_synonym byte = "8 word"
type_synonym ptr = "64 word"

text \<open>
  The region that \<open>mmap\<close> returned: the bytes of the file, placed at \<open>m_base\<close>.
  A read of an address outside the region has no defined value in C; the loads below
  return \<open>None\<close> there, and every function that reads through a pointer returns
  \<open>None\<close> as soon as one of its reads does.
\<close>

record mem_map =
  m_base :: ptr
  m_bytes :: "byte list"

definition load8 :: "mem_map \<Rightarrow> ptr \<Rightarrow> byte option" where
  "load8 mp p = (let i = unat (p - m_base mp) in
     if i < length (m_bytes mp) then Some (m_bytes mp ! i) else None)"

text \<open>Multi-byte fields are little-endian.\<close>

definition load16 :: "mem_map \<Rightarrow> ptr \<Rightarrow> 16 word option" where
  "load16 mp p = do {
     b0 \<leftarrow> load8 mp p;
     b1 \<leftarrow> load8 mp (p + 1);
     Some (ucast b0 OR push_bit 8 (ucast b1))
   }"

definition load32 :: "mem_map \<Rightarrow> ptr \<Rightarrow> 32 word option" where
  "load32 mp p = do {
     lo \<leftarrow> load16 mp p;
     hi \<leftarrow> load16 mp (p + 2);
     Some (ucast lo OR push_bit 16 (ucast hi))
   }"

definition load64 :: "mem_map \<Rightarrow> ptr \<Rightarrow> 64 word option" where
  "load64 mp p = do {
     lo \<leftarrow> load32 mp p;
     hi \<leftarrow> load32 mp (p + 4);
     Some (ucast lo OR push_bit 32 (ucast hi))
   }"

section \<open>The context\<close>

text \<open>
  Modelled from the spec: the header \<open>libpe/pe.h\<close> with the declarations of
  \<open>pe_ctx_t\<close>, \<open>pe_file_t\<close>, \<open>pe_err_e\<close> and of the on-disk structures is not
  part of the sources. The records below hold the fields that \<open>pe.c\<close> uses, with the
  widths that \<open>pe.c\<close> gives them (\<open>uint16_t pe_sections_count\<close>,
  \<open>uint32_t pe_directories_count\<close>, \<open>uint64_t\<close> entry point and image base); the
  error kinds are the ones the specification lists.
\<close>

datatype pe_err_e =
    LIBPE_E_OK
  | LIBPE_E_ALLOCATION_FAILURE
  | LIBPE_E_OPEN_FAILED
  | LIBPE_E_FDOPEN_FAILED
  | LIBPE_E_FSTAT_FAILED
  | LIBPE_E_NOT_A_FILE
  | LIBPE_E_MMAP_FAILED
  | LIBPE_E_MUNMAP_FAILED
  | LIBPE_E_CLOSE_FAILED
  | LIBPE_E_NOT_A_PE_FILE
  | LIBPE_E_INVALID_LFANEW
  | LIBPE_E_INVALID_SIGNATURE
  | LIBPE_E_MISSING_COFF_HEADER
  | LIBPE_E_MISSING_OPTIONAL_HEADER
  | LIBPE_E_UNSUPPORTED_IMAGE
  | LIBPE_E_TOO_MANY_DIRECTORIES
  | LIBPE_E_TOO_MANY_SECTIONS

record IMAGE_OPTIONAL_HEADER =
  oh_type :: "16 word"
  oh_length :: "64 word"
  oh_32 :: ptr
  oh_64 :: ptr

text \<open>
  \<open>directories\<close> and \<open>sections\<close> are heap arrays of pointers into the mapping:
  \<open>None\<close> is the \<open>NULL\<close> array, \<open>Some ps\<close> an allocated array holding \<open>ps\<close>.
\<close>

record pe_file_t =
  dos_hdr :: ptr
  signature :: "32 word"
  coff_hdr :: ptr
  optional_hdr_ptr :: ptr
  optional_hdr :: IMAGE_OPTIONAL_HEADER
  num_directories :: "32 word"
  directories_ptr :: ptr
  directories :: "ptr list option"
  num_sections :: "16 word"
  sections_ptr :: ptr
  sections :: "ptr list option"
  entrypoint :: "64 word"
  imagebase :: "64 word"

record pe_cached_data_t =
  cd_imports :: ptr
  cd_exports :: ptr
  cd_hash_headers :: ptr
  cd_hash_sections :: ptr
  cd_hash_file :: ptr
  cd_resources :: ptr

record pe_ctx_t =
  stream :: ptr
  path :: "string option"
  map_addr :: ptr
  map_size :: "64 word"
  map_end :: ptr
  pe :: pe_file_t
  cached_data :: pe_cached_data_t

text \<open>The context after \<open>memset(ctx, 0, sizeof(pe_ctx_t))\<close>.\<close>

definition pe_file_zero :: pe_file_t where
  "pe_file_zero = \<lparr> dos_hdr = 0, signature = 0, coff_hdr = 0, optional_hdr_ptr = 0,
     optional_hdr = \<lparr> oh_type = 0, oh_length = 0, oh_32 = 0, oh_64 = 0 \<rparr>,
     num_directories = 0, directories_ptr = 0, directories = None,
     num_sections = 0, sections_ptr = 0, sections = None,
     entrypoint = 0, imagebase = 0 \<rparr>"

definition pe_cached_data_zero :: pe_cached_data_t where
  "pe_cached_data_zero = \<lparr> cd_imports = 0, cd_exports = 0, cd_hash_headers = 0,
     cd_hash_sections = 0, cd_hash_file = 0, cd_resources = 0 \<rparr>"

definition pe_ctx_zero :: pe_ctx_t where
  "pe_ctx_zero = \<lparr> stream = 0, path = None, map_addr = 0, map_size = 0, map_end = 0,
     pe = pe_file_zero, cached_data = pe_cached_data_zero \<rparr>"

text \<open>
  What \<open>pe_load_file_ext\<close> establishes between the context and the region it mapped
  (lines 85, 92 and 99). A successful \<open>mmap\<close> does not return \<open>NULL\<close>, and
  user-space addresses of an LP64 system lie in the lower half of the address space, so
  the region does not reach \<open>2 ^ 63\<close>.
\<close>

definition mapped :: "mem_map \<Rightarrow> pe_ctx_t \<Rightarrow> bool" where
  "mapped mp ctx \<longleftrightarrow>
     map_addr ctx = m_base mp \<and>
     map_size ctx = of_nat (length (m_bytes mp)) \<and>
     map_end ctx = map_addr ctx + map_size ctx \<and>
     0 < unat (m_base mp) \<and>
     unat (m_base mp) + length (m_bytes mp) < 0x8000000000000000"

section \<open>The bounds check\<close>

text \<open>
  \<open>pe_can_read\<close>, lines 37 to 41. \<open>start + size\<close> is an addition of \<open>uintptr_t\<close>
  values: it wraps modulo \<open>2 ^ 64\<close>.
\<close>

definition pe_can_read :: "pe_ctx_t \<Rightarrow> ptr \<Rightarrow> 64 word \<Rightarrow> bool" where
  "pe_can_read ctx p sz =
     (let start = p;
          end' = start + sz
      in start \<ge> map_addr ctx \<and> end' \<le> map_end ctx)"

text \<open>
  The bounds check the specification describes: the same two comparisons with
  \<open>ptr + len\<close> computed exactly, on the natural numbers.
\<close>

definition contains_exact :: "pe_ctx_t \<Rightarrow> ptr \<Rightarrow> 64 word \<Rightarrow> bool" where
  "contains_exact ctx p len \<longleftrightarrow>
     unat (map_addr ctx) \<le> unat p \<and> unat p + unat len \<le> unat (map_end ctx)"

text \<open>A context whose mapping is the 4096 bytes from \<open>0x1000\<close> to \<open>0x2000\<close>.\<close>

definition ctx_page :: pe_ctx_t where
  "ctx_page = pe_ctx_zero \<lparr> map_addr := 0x1000, map_size := 0x1000, map_end := 0x2000 \<rparr>"

section \<open>Section names\<close>

text \<open>
  Modelled from the spec: \<open>SECTION_NAME_SIZE\<close> is declared in the missing header; the
  name field of a section header is 8 bytes.
\<close>

definition SECTION_NAME_SIZE :: nat where
  "SECTION_NAME_SIZE = 8"

text \<open>
  \<open>strncpy(dst, src, n)\<close> on byte buffers: the bytes of \<open>src\<close> before its first NUL,
  at most \<open>n\<close> of them, then NUL bytes up to \<open>n\<close>; the rest of \<open>dst\<close> is kept.
\<close>

definition strncpy :: "byte list \<Rightarrow> byte list \<Rightarrow> nat \<Rightarrow> byte list" where
  "strncpy dst src n =
     (let s = takeWhile (\<lambda>b. b \<noteq> 0) (take n src)
      in s @ replicate (n - length s) 0 @ drop n dst)"

text \<open>The C string that a buffer holds: its bytes before the first NUL.\<close>

definition c_string :: "byte list \<Rightarrow> byte list" where
  "c_string buf = takeWhile (\<lambda>b. b \<noteq> 0) buf"

text \<open>
  \<open>pe_section_name\<close>, lines 433 to 439. \<open>name\<close> is the 8-byte \<open>Name\<close> field of the
  section header, \<open>out_name\<close> the caller's buffer, whose length is \<open>out_name_size\<close>
  (the function does not use \<open>ctx\<close>).
  \<open>None\<close> is the failed assertion; otherwise the result is the buffer after the call
  (the function returns a pointer to it).
\<close>

definition pe_section_name :: "byte list \<Rightarrow> byte list \<Rightarrow> byte list option" where
  "pe_section_name name out_name =
     (if \<not> length out_name \<ge> SECTION_NAME_SIZE + 1 then None
      else Some ((strncpy out_name name SECTION_NAME_SIZE)[SECTION_NAME_SIZE - 1 := 0]))"

section \<open>Section headers\<close>

text \<open>
  Modelled from the spec: \<open>IMAGE_SECTION_HEADER\<close> is declared in the missing header.
  It is the 40-byte section header of the PE format, read in place through a pointer into
  the mapping: \<open>Name\<close> (8 bytes) at offset 0, then the 32-bit fields
  \<open>Misc.VirtualSize\<close> at 8, \<open>VirtualAddress\<close> at 12, \<open>SizeOfRawData\<close> at 16 and
  \<open>PointerToRawData\<close> at 20. Each function below is the C expression
  \<open>p->Field\<close>.
\<close>

definition sec_VirtualSize :: "mem_map \<Rightarrow> ptr \<Rightarrow> 32 word option" where
  "sec_VirtualSize mp p = load32 mp (p + 8)"

definition sec_VirtualAddress :: "mem_map \<Rightarrow> ptr \<Rightarrow> 32 word option" where
  "sec_VirtualAddress mp p = load32 mp (p + 12)"

definition sec_SizeOfRawData :: "mem_map \<Rightarrow> ptr \<Rightarrow> 32 word option" where
  "sec_SizeOfRawData mp p = load32 mp (p + 16)"

definition sec_PointerToRawData :: "mem_map \<Rightarrow> ptr \<Rightarrow> 32 word option" where
  "sec_PointerToRawData mp p = load32 mp (p + 20)"

text \<open>The four fields together, as the theorems name them.\<close>

record IMAGE_SECTION_HEADER =
  VirtualSize :: "32 word"
  VirtualAddress :: "32 word"
  SizeOfRawData :: "32 word"
  PointerToRawData :: "32 word"

definition section_hdr :: "mem_map \<Rightarrow> ptr \<Rightarrow> IMAGE_SECTION_HEADER option" where
  "section_hdr mp p = do {
     vs \<leftarrow> sec_VirtualSize mp p;
     va \<leftarrow> sec_VirtualAddress mp p;
     rs \<leftarrow> sec_SizeOfRawData mp p;
     pr \<leftarrow> sec_PointerToRawData mp p;
     Some \<lparr> VirtualSize = vs, VirtualAddress = va, SizeOfRawData = rs,
            PointerToRawData = pr \<rparr>
   }"

section \<open>The address translator\<close>

text \<open>
  The loops run \<open>i\<close> from 0 while \<open>i < ctx->pe.num_sections\<close> and index the pointer
  array \<open>ctx->pe.sections\<close>; an index beyond the allocated array is a read outside it
  (\<open>None\<close>).

  A field that the C code reads more than once in an iteration is loaded once: the
  functions do not write, so every read of it gives the same value.

  \<open>pe_rva2section\<close>, lines 316 to 327. Both operands of
  \<open>VirtualAddress + Misc.VirtualSize\<close> are \<open>uint32_t\<close>: the sum is a 32-bit sum,
  widened to \<open>uint64_t\<close> afterwards. The result is the pointer \<open>sections[i]\<close>, or
  \<open>NULL\<close>.
\<close>

function rva2section_loop ::
  "mem_map \<Rightarrow> pe_ctx_t \<Rightarrow> ptr list \<Rightarrow> 64 word \<Rightarrow> nat \<Rightarrow> ptr option" where
  "rva2section_loop mp ctx secs rva i =
     (if i < unat (num_sections (pe ctx)) then
        (if \<not> i < length secs then None
         else do {
           va \<leftarrow> sec_VirtualAddress mp (secs ! i);
           vs \<leftarrow> sec_VirtualSize mp (secs ! i);
           let start = (ucast va :: 64 word);
           let end' = (ucast (va + vs) :: 64 word);
           if rva \<ge> start \<and> rva \<le> end' then Some (secs ! i)
           else rva2section_loop mp ctx secs rva (i + 1)
         })
      else Some 0)"
  by pat_completeness auto
termination
  by (relation "measure (\<lambda>(mp, ctx, secs, rva, i). unat (num_sections (pe ctx)) - i)") auto

definition pe_rva2section :: "mem_map \<Rightarrow> pe_ctx_t \<Rightarrow> 64 word \<Rightarrow> ptr option" where
  "pe_rva2section mp ctx rva =
     (case sections (pe ctx) of
        None \<Rightarrow> Some 0
      | Some secs \<Rightarrow> if rva = 0 then Some 0 else rva2section_loop mp ctx secs rva 0)"

text \<open>
  \<open>pe_rva2ofs\<close>, lines 330 to 364. \<open>section_size\<close> is a \<open>size_t\<close>, so
  \<open>VirtualAddress + section_size\<close> is a 64-bit sum; \<open>rva\<close> is a \<open>uint64_t\<close>, so
  \<open>rva -= ...; rva += ...\<close> wrap modulo \<open>2 ^ 64\<close>. The branch taken when the loop
  ends holds the code after the loop (lines 356 to 363), which sees the \<open>rva\<close> it was
  called with.
\<close>

function rva2ofs_loop ::
  "mem_map \<Rightarrow> pe_ctx_t \<Rightarrow> ptr list \<Rightarrow> 64 word \<Rightarrow> nat \<Rightarrow> 64 word option" where
  "rva2ofs_loop mp ctx secs rva i =
     (if i < unat (num_sections (pe ctx)) then
        (if \<not> i < length secs then None
         else if secs ! i = 0 then Some 0
         else do {
           vs \<leftarrow> sec_VirtualSize mp (secs ! i);
           section_size \<leftarrow>
             (if (ucast vs :: 64 word) = 0
              then map_option ucast (sec_SizeOfRawData mp (secs ! i))
              else Some (ucast vs :: 64 word));
           va \<leftarrow> sec_VirtualAddress mp (secs ! i);
           if ucast va \<le> rva then
             (if ucast va + section_size > rva then do {
                pr \<leftarrow> sec_PointerToRawData mp (secs ! i);
                Some (rva - ucast va + ucast pr)
              }
              else rva2ofs_loop mp ctx secs rva (i + 1))
           else rva2ofs_loop mp ctx secs rva (i + 1)
         })
      else if num_sections (pe ctx) = 1 then
        (if \<not> 0 < length secs then None
         else do {
           va \<leftarrow> sec_VirtualAddress mp (secs ! 0);
           pr \<leftarrow> sec_PointerToRawData mp (secs ! 0);
           Some (rva - ucast va + ucast pr)
         })
      else Some rva)"
  by pat_completeness auto
termination
  by (relation "measure (\<lambda>(mp, ctx, secs, rva, i). unat (num_sections (pe ctx)) - i)") auto

definition pe_rva2ofs :: "mem_map \<Rightarrow> pe_ctx_t \<Rightarrow> 64 word \<Rightarrow> 64 word option" where
  "pe_rva2ofs mp ctx rva =
     (if rva = 0 then Some 0
      else case sections (pe ctx) of
        None \<Rightarrow> Some rva
      | Some secs \<Rightarrow> rva2ofs_loop mp ctx secs rva 0)"

text \<open>
  \<open>pe_ofs2rva\<close>, lines 367 to 385. \<open>PointerToRawData + SizeOfRawData\<close> is a sum of
  two \<open>uint32_t\<close> values, a 32-bit sum.
\<close>

function ofs2rva_loop ::
  "mem_map \<Rightarrow> pe_ctx_t \<Rightarrow> ptr list \<Rightarrow> 64 word \<Rightarrow> nat \<Rightarrow> 64 word option" where
  "ofs2rva_loop mp ctx secs ofs i =
     (if i < unat (num_sections (pe ctx)) then
        (if \<not> i < length secs then None
         else if secs ! i = 0 then Some 0
         else do {
           pr \<leftarrow> sec_PointerToRawData mp (secs ! i);
           if ucast pr \<le> ofs then do {
             rs \<leftarrow> sec_SizeOfRawData mp (secs ! i);
             if (ucast (pr + rs) :: 64 word) > ofs then do {
               va \<leftarrow> sec_VirtualAddress mp (secs ! i);
               Some (ofs - ucast pr + ucast va)
             }
             else ofs2rva_loop mp ctx secs ofs (i + 1)
           }
           else ofs2rva_loop mp ctx secs ofs (i + 1)
         })
      else Some 0)"
  by pat_completeness auto
termination
  by (relation "measure (\<lambda>(mp, ctx, secs, ofs, i). unat (num_sections (pe ctx)) - i)") auto

definition pe_ofs2rva :: "mem_map \<Rightarrow> pe_ctx_t \<Rightarrow> 64 word \<Rightarrow> 64 word option" where
  "pe_ofs2rva mp ctx ofs =
     (case sections (pe ctx) of
        None \<Rightarrow> Some 0
      | Some secs \<Rightarrow> if ofs = 0 then Some 0 else ofs2rva_loop mp ctx secs ofs 0)"

section \<open>The structural parser\<close>

text \<open>
  Modelled from the spec: the constants and structure layouts below are declared in the
  missing header. The magic numbers and the two bounds are the ones the specification
  gives; the structures are the packed on-disk structures of the PE format, which the
  code reads in place: \<open>IMAGE_DOS_HEADER\<close> (\<open>e_magic\<close> at 0, \<open>e_lfanew\<close>, 32 bits, at
  \<open>0x3C\<close>), the 20-byte \<open>IMAGE_COFF_HEADER\<close> (\<open>NumberOfSections\<close> at 2,
  \<open>SizeOfOptionalHeader\<close> at 16), the 96-byte \<open>IMAGE_OPTIONAL_HEADER_32\<close>
  (\<open>AddressOfEntryPoint\<close> at 16, \<open>ImageBase\<close> at 28, \<open>NumberOfRvaAndSizes\<close> at 92)
  and the 112-byte \<open>IMAGE_OPTIONAL_HEADER_64\<close> (\<open>AddressOfEntryPoint\<close> at 16, the
  64-bit \<open>ImageBase\<close> at 24, \<open>NumberOfRvaAndSizes\<close> at 108), both without the
  directory entries that follow them; a directory entry is 8 bytes, a section header 40.
\<close>

definition MAGIC_MZ :: "16 word" where "MAGIC_MZ = 0x5A4D"
definition SIGNATURE_NE :: "32 word" where "SIGNATURE_NE = 0x454E"
definition SIGNATURE_PE :: "32 word" where "SIGNATURE_PE = 0x4550"
definition MAGIC_ROM :: "16 word" where "MAGIC_ROM = 0x107"
definition MAGIC_PE32 :: "16 word" where "MAGIC_PE32 = 0x10b"
definition MAGIC_PE64 :: "16 word" where "MAGIC_PE64 = 0x20b"
definition MAX_DIRECTORIES :: "32 word" where "MAX_DIRECTORIES = 16"
definition MAX_SECTIONS :: "16 word" where "MAX_SECTIONS = 96"

definition dos_e_magic :: "mem_map \<Rightarrow> ptr \<Rightarrow> 16 word option" where
  "dos_e_magic mp p = load16 mp p"

definition dos_e_lfanew :: "mem_map \<Rightarrow> ptr \<Rightarrow> 32 word option" where
  "dos_e_lfanew mp p = load32 mp (p + 0x3C)"

definition coff_NumberOfSections :: "mem_map \<Rightarrow> ptr \<Rightarrow> 16 word option" where
  "coff_NumberOfSections mp p = load16 mp (p + 2)"

definition coff_SizeOfOptionalHeader :: "mem_map \<Rightarrow> ptr \<Rightarrow> 16 word option" where
  "coff_SizeOfOptionalHeader mp p = load16 mp (p + 16)"

definition opt_AddressOfEntryPoint :: "mem_map \<Rightarrow> ptr \<Rightarrow> 32 word option" where
  "opt_AddressOfEntryPoint mp p = load32 mp (p + 16)"

definition opt32_ImageBase :: "mem_map \<Rightarrow> ptr \<Rightarrow> 32 word option" where
  "opt32_ImageBase mp p = load32 mp (p + 28)"

definition opt32_NumberOfRvaAndSizes :: "mem_map \<Rightarrow> ptr \<Rightarrow> 32 word option" where
  "opt32_NumberOfRvaAndSizes mp p = load32 mp (p + 92)"

definition opt64_ImageBase :: "mem_map \<Rightarrow> ptr \<Rightarrow> 64 word option" where
  "opt64_ImageBase mp p = load64 mp (p + 24)"

definition opt64_NumberOfRvaAndSizes :: "mem_map \<Rightarrow> ptr \<Rightarrow> 32 word option" where
  "opt64_NumberOfRvaAndSizes mp p = load32 mp (p + 108)"

text \<open>
  \<open>pe_parse\<close> is one C function of early returns. The model cuts it at four places and
  chains the pieces: a piece answers \<open>None\<close> when one of its reads is outside the
  mapping, \<open>Some (Inl (err, ctx))\<close> when the function returns \<open>err\<close> there, leaving the
  context as \<open>ctx\<close>, and \<open>Some (Inr (signature_ptr, ctx))\<close> when control reaches the
  next piece.
\<close>

type_synonym parse_step = "(pe_err_e \<times> pe_ctx_t + ptr \<times> pe_ctx_t) option"

definition and_then :: "parse_step \<Rightarrow> (ptr \<times> pe_ctx_t \<Rightarrow> parse_step) \<Rightarrow> parse_step" where
  "and_then r k = (case r of None \<Rightarrow> None | Some (Inl e) \<Rightarrow> Some (Inl e) | Some (Inr a) \<Rightarrow> k a)"

text \<open>Lines 172 to 191: the DOS header and the signature.\<close>

definition pe_parse_signature :: "mem_map \<Rightarrow> pe_ctx_t \<Rightarrow> parse_step" where
  "pe_parse_signature mp ctx0 = do {
     let ctx1 = ctx0 \<lparr> pe := (pe ctx0) \<lparr> dos_hdr := map_addr ctx0 \<rparr> \<rparr>;
     e_magic \<leftarrow> dos_e_magic mp (dos_hdr (pe ctx1));
     if e_magic \<noteq> MAGIC_MZ then Some (Inl (LIBPE_E_NOT_A_PE_FILE, ctx1))
     else do {
       e_lfanew \<leftarrow> dos_e_lfanew mp (dos_hdr (pe ctx1));
       let signature_ptr = dos_hdr (pe ctx1) + ucast e_lfanew;
       if \<not> pe_can_read ctx1 signature_ptr 4 then Some (Inl (LIBPE_E_INVALID_LFANEW, ctx1))
       else do {
         sig \<leftarrow> load32 mp signature_ptr;
         let ctx2 = ctx1 \<lparr> pe := (pe ctx1) \<lparr> signature := sig \<rparr> \<rparr>;
         if sig = SIGNATURE_NE \<or> sig = SIGNATURE_PE then Some (Inr (signature_ptr, ctx2))
         else Some (Inl (LIBPE_E_INVALID_SIGNATURE, ctx2))
       }
     }
   }"

text \<open>Lines 193 to 202: the COFF header.\<close>

definition pe_parse_coff :: "mem_map \<Rightarrow> ptr \<times> pe_ctx_t \<Rightarrow> parse_step" where
  "pe_parse_coff mp st = (case st of (signature_ptr, ctx0) \<Rightarrow> do {
     let ctx1 = ctx0 \<lparr> pe := (pe ctx0) \<lparr> coff_hdr := signature_ptr + 4 \<rparr> \<rparr>;
     if \<not> pe_can_read ctx1 (coff_hdr (pe ctx1)) 20
     then Some (Inl (LIBPE_E_MISSING_COFF_HEADER, ctx1))
     else do {
       n \<leftarrow> coff_NumberOfSections mp (coff_hdr (pe ctx1));
       let ctx2 = ctx1 \<lparr> pe := (pe ctx1) \<lparr> num_sections := n \<rparr> \<rparr>;
       let ctx3 = ctx2 \<lparr> pe := (pe ctx2) \<lparr> optional_hdr_ptr := coff_hdr (pe ctx2) + 20 \<rparr> \<rparr>;
       Some (Inr (signature_ptr, ctx3))
     }
   })"

text \<open>
  Lines 204 to 240: the classification of the optional header. The \<open>switch\<close> sends
  \<open>MAGIC_PE32\<close> and \<open>MAGIC_PE64\<close> to their cases and every other value, \<open>MAGIC_ROM\<close>
  among them, to the return of \<open>LIBPE_E_UNSUPPORTED_IMAGE\<close>.
\<close>

definition pe_parse_optional :: "mem_map \<Rightarrow> ptr \<times> pe_ctx_t \<Rightarrow> parse_step" where
  "pe_parse_optional mp st = (case st of (signature_ptr, ctx0) \<Rightarrow> do {
     let opt_type_ptr = optional_hdr_ptr (pe ctx0);
     if \<not> pe_can_read ctx0 opt_type_ptr 2
     then Some (Inl (LIBPE_E_MISSING_OPTIONAL_HEADER, ctx0))
     else do {
       ty \<leftarrow> load16 mp opt_type_ptr;
       let ctx1 = ctx0 \<lparr> pe := (pe ctx0)
                   \<lparr> optional_hdr := (optional_hdr (pe ctx0)) \<lparr> oh_type := ty \<rparr> \<rparr> \<rparr>;
       if ty = MAGIC_PE32 then
         (if \<not> pe_can_read ctx1 (optional_hdr_ptr (pe ctx1)) 96
          then Some (Inl (LIBPE_E_MISSING_OPTIONAL_HEADER, ctx1))
          else do {
            let p = optional_hdr_ptr (pe ctx1);
            nd \<leftarrow> opt32_NumberOfRvaAndSizes mp p;
            ep \<leftarrow> opt_AddressOfEntryPoint mp p;
            ib \<leftarrow> opt32_ImageBase mp p;
            Some (Inr (signature_ptr, ctx1 \<lparr> pe := (pe ctx1)
              \<lparr> optional_hdr := (optional_hdr (pe ctx1)) \<lparr> oh_32 := p, oh_length := 96 \<rparr>,
                num_directories := nd,
                entrypoint := ucast ep,
                imagebase := ucast ib \<rparr> \<rparr>))
          })
       else if ty = MAGIC_PE64 then
         (if \<not> pe_can_read ctx1 (optional_hdr_ptr (pe ctx1)) 112
          then Some (Inl (LIBPE_E_MISSING_OPTIONAL_HEADER, ctx1))
          else do {
            let p = optional_hdr_ptr (pe ctx1);
            nd \<leftarrow> opt64_NumberOfRvaAndSizes mp p;
            ep \<leftarrow> opt_AddressOfEntryPoint mp p;
            ib \<leftarrow> opt64_ImageBase mp p;
            Some (Inr (signature_ptr, ctx1 \<lparr> pe := (pe ctx1)
              \<lparr> optional_hdr := (optional_hdr (pe ctx1)) \<lparr> oh_64 := p, oh_length := 112 \<rparr>,
                num_directories := nd,
                entrypoint := ucast ep,
                imagebase := ib \<rparr> \<rparr>))
          })
       else Some (Inl (LIBPE_E_UNSUPPORTED_IMAGE, ctx1))
     }
   })"

text \<open>Lines 172 to 240 together: everything before the two bounds.\<close>

definition pe_parse_headers :: "mem_map \<Rightarrow> pe_ctx_t \<Rightarrow> parse_step" where
  "pe_parse_headers mp ctx =
     and_then (and_then (pe_parse_signature mp ctx) (pe_parse_coff mp)) (pe_parse_optional mp)"

text \<open>
  Lines 242 to 286: the two bounds and the two pointer tables. \<open>dirs_alloc\<close> and
  \<open>secs_alloc\<close> say whether the first and the second \<open>malloc\<close> succeed. The products
  \<open>i * sizeof(...)\<close> are \<open>size_t\<close> products; \<open>sections_offset\<close> is a \<open>uint32_t\<close>.
\<close>

definition pe_parse_tables ::
  "mem_map \<Rightarrow> bool \<Rightarrow> bool \<Rightarrow> ptr \<times> pe_ctx_t \<Rightarrow> (pe_err_e \<times> pe_ctx_t) option" where
  "pe_parse_tables mp dirs_alloc secs_alloc st = (case st of (signature_ptr, ctx0) \<Rightarrow>
     if num_directories (pe ctx0) > MAX_DIRECTORIES
     then Some (LIBPE_E_TOO_MANY_DIRECTORIES, ctx0)
     else if num_sections (pe ctx0) > MAX_SECTIONS
     then Some (LIBPE_E_TOO_MANY_SECTIONS, ctx0)
     else do {
       let ctx1 = ctx0 \<lparr> pe := (pe ctx0) \<lparr> directories_ptr :=
                    optional_hdr_ptr (pe ctx0) + oh_length (optional_hdr (pe ctx0)) \<rparr> \<rparr>;
       soh \<leftarrow> coff_SizeOfOptionalHeader mp (coff_hdr (pe ctx1));
       let sections_offset = (4 + 20 + ucast soh :: 32 word);
       let ctx2 = ctx1 \<lparr> pe := (pe ctx1) \<lparr> sections_ptr :=
                    signature_ptr + ucast sections_offset \<rparr> \<rparr>;
       if num_directories (pe ctx2) > 0 \<and> \<not> dirs_alloc
       then Some (LIBPE_E_ALLOCATION_FAILURE, ctx2 \<lparr> pe := (pe ctx2) \<lparr> directories := None \<rparr> \<rparr>)
       else do {
         let ctx3 =
           (if num_directories (pe ctx2) > 0
            then ctx2 \<lparr> pe := (pe ctx2) \<lparr> directories := Some
                   (map (\<lambda>i. directories_ptr (pe ctx2) + of_nat i * 8)
                      [0 ..< unat (num_directories (pe ctx2))]) \<rparr> \<rparr>
            else ctx2 \<lparr> pe := (pe ctx2) \<lparr> directories_ptr := 0 \<rparr> \<rparr>);
         if num_sections (pe ctx3) > 0 \<and> \<not> secs_alloc
         then Some (LIBPE_E_ALLOCATION_FAILURE, ctx3 \<lparr> pe := (pe ctx3) \<lparr> sections := None \<rparr> \<rparr>)
         else do {
           let ctx4 =
             (if num_sections (pe ctx3) > 0
              then ctx3 \<lparr> pe := (pe ctx3) \<lparr> sections := Some
                     (map (\<lambda>i. sections_ptr (pe ctx3) + of_nat i * 40)
                        [0 ..< unat (num_sections (pe ctx3))]) \<rparr> \<rparr>
              else ctx3 \<lparr> pe := (pe ctx3) \<lparr> sections_ptr := 0 \<rparr> \<rparr>);
           Some (LIBPE_E_OK, ctx4)
         }
       }
     })"

definition pe_parse ::
  "mem_map \<Rightarrow> bool \<Rightarrow> bool \<Rightarrow> pe_ctx_t \<Rightarrow> (pe_err_e \<times> pe_ctx_t) option" where
  "pe_parse mp dirs_alloc secs_alloc ctx =
     (case pe_parse_headers mp ctx of
        None \<Rightarrow> None
      | Some (Inl r) \<Rightarrow> Some r
      | Some (Inr st) \<Rightarrow> pe_parse_tables mp dirs_alloc secs_alloc st)"

text \<open>
  Lines 193 to 286 together: what \<open>pe_parse\<close> runs once the \<open>switch\<close> on the
  signature has let it pass, for \<open>SIGNATURE_NE\<close> and for \<open>SIGNATURE_PE\<close> alike.
\<close>

definition pe_parse_rest ::
  "mem_map \<Rightarrow> bool \<Rightarrow> bool \<Rightarrow> ptr \<times> pe_ctx_t \<Rightarrow> (pe_err_e \<times> pe_ctx_t) option" where
  "pe_parse_rest mp dirs_alloc secs_alloc st =
     (case and_then (pe_parse_coff mp st) (pe_parse_optional mp) of
        None \<Rightarrow> None
      | Some (Inl r) \<Rightarrow> Some r
      | Some (Inr st') \<Rightarrow> pe_parse_tables mp dirs_alloc secs_alloc st')"

text \<open>\<open>pe_is_pe\<close>, lines 293 to 303.\<close>

definition pe_is_pe :: "mem_map \<Rightarrow> pe_ctx_t \<Rightarrow> bool option" where
  "pe_is_pe mp ctx =
     (if dos_hdr (pe ctx) = 0 then Some False
      else do {
        e_magic \<leftarrow> dos_e_magic mp (dos_hdr (pe ctx));
        if e_magic \<noteq> MAGIC_MZ then Some False
        else if signature (pe ctx) \<noteq> SIGNATURE_PE then Some False
        else Some True
      })"

text \<open>\<open>pe_directories_count\<close>, line 399, and \<open>pe_sections_count\<close>, line 414.\<close>

definition pe_directories_count :: "pe_ctx_t \<Rightarrow> 32 word" where
  "pe_directories_count ctx = num_directories (pe ctx)"

definition pe_sections_count :: "pe_ctx_t \<Rightarrow> 16 word" where
  "pe_sections_count ctx = num_sections (pe ctx)"

section \<open>Unloading\<close>

text \<open>
  \<open>pe_unload\<close>, lines 140 to 169, with \<open>cleanup_cached_data\<close>, lines 130 to 138. The
  function acts on the process through library calls; the model returns them in the order
  they are made. \<open>free\<close> is recorded with the object it is given (\<open>None\<close> for
  \<open>free(NULL)\<close>, which does nothing).
\<close>

text \<open>
  Modelled from the spec: the six deallocators of the cache slots are defined outside
  \<open>pe.c\<close>; a call of one is recorded with the payload pointer it receives. They are not
  given the context.
\<close>

datatype os_call =
    Call_fclose ptr
  | Call_free_path "string option"
  | Call_free_table "ptr list option"
  | Call_pe_imports_dealloc ptr
  | Call_pe_exports_dealloc ptr
  | Call_pe_hash_headers_dealloc ptr
  | Call_pe_hash_sections_dealloc ptr
  | Call_pe_hash_dealloc ptr
  | Call_pe_resources_dealloc ptr
  | Call_munmap ptr "64 word"
  | Call_CRYPTO_cleanup_all_ex_data
  | Call_EVP_cleanup

definition cleanup_cached_data :: "pe_ctx_t \<Rightarrow> pe_ctx_t \<times> os_call list" where
  "cleanup_cached_data ctx =
     (ctx \<lparr> cached_data := pe_cached_data_zero \<rparr>,
      [Call_pe_imports_dealloc (cd_imports (cached_data ctx)),
       Call_pe_exports_dealloc (cd_exports (cached_data ctx)),
       Call_pe_hash_headers_dealloc (cd_hash_headers (cached_data ctx)),
       Call_pe_hash_sections_dealloc (cd_hash_sections (cached_data ctx)),
       Call_pe_hash_dealloc (cd_hash_file (cached_data ctx)),
       Call_pe_resources_dealloc (cd_resources (cached_data ctx))])"

text \<open>\<open>munmap_ret\<close> is what \<open>munmap\<close> returns if it is called.\<close>

definition pe_unload :: "int \<Rightarrow> pe_ctx_t \<Rightarrow> pe_err_e \<times> pe_ctx_t \<times> os_call list" where
  "pe_unload munmap_ret ctx =
     (let calls1 = (if stream ctx \<noteq> 0 then [Call_fclose (stream ctx)] else []);
          calls2 = calls1 @ [Call_free_path (path ctx)];
          calls3 = calls2 @ [Call_free_table (directories (pe ctx)),
                             Call_free_table (sections (pe ctx))];
          (ctx1, calls_cache) = cleanup_cached_data ctx;
          calls4 = calls3 @ calls_cache
      in if map_addr ctx1 \<noteq> 0 \<and> munmap_ret \<noteq> 0
         then (LIBPE_E_MUNMAP_FAILED, ctx1,
               calls4 @ [Call_munmap (map_addr ctx1) (map_size ctx1)])
         else (LIBPE_E_OK, pe_ctx_zero,
               calls4
               @ (if map_addr ctx1 \<noteq> 0 then [Call_munmap (map_addr ctx1) (map_size ctx1)] else [])
               @ [Call_CRYPTO_cleanup_all_ex_data, Call_EVP_cleanup]))"

text \<open>
  The calls that close a stream, the calls that unmap a mapping, and the calls that tear
  down the state of the cryptographic library, which belongs to the whole process.
\<close>

definition is_fclose :: "os_call \<Rightarrow> bool" where
  "is_fclose c = (case c of Call_fclose s \<Rightarrow> True | _ \<Rightarrow> False)"

definition is_munmap :: "os_call \<Rightarrow> bool" where
  "is_munmap c = (case c of Call_munmap a n \<Rightarrow> True | _ \<Rightarrow> False)"

definition tears_down_crypto :: "os_call \<Rightarrow> bool" where
  "tears_down_crypto c =
     (case c of Call_CRYPTO_cleanup_all_ex_data \<Rightarrow> True | Call_EVP_cleanup \<Rightarrow> True
      | _ \<Rightarrow> False)"

section \<open>Files and contexts used as examples\<close>

definition le16 :: "16 word \<Rightarrow> byte list" where
  "le16 w = [ucast w, ucast (drop_bit 8 w)]"

definition le32 :: "32 word \<Rightarrow> byte list" where
  "le32 w = [ucast w, ucast (drop_bit 8 w), ucast (drop_bit 16 w), ucast (drop_bit 24 w)]"

text \<open>The context that \<open>pe_load_file_ext\<close> leaves for a file mapped at \<open>base\<close>.\<close>

definition file_map :: "ptr \<Rightarrow> byte list \<Rightarrow> mem_map" where
  "file_map base bs = \<lparr> m_base = base, m_bytes = bs \<rparr>"

definition loaded_ctx :: "ptr \<Rightarrow> byte list \<Rightarrow> pe_ctx_t" where
  "loaded_ctx base bs = pe_ctx_zero \<lparr> path := Some ''a.exe'', map_addr := base,
     map_size := of_nat (length bs), map_end := base + of_nat (length bs) \<rparr>"

text \<open>
  A DOS header of 64 bytes with \<open>e_lfanew = 0x40\<close>, followed by the signature \<open>sig\<close>
  and the bytes \<open>rest\<close>.
\<close>

definition dos_image :: "32 word \<Rightarrow> byte list \<Rightarrow> byte list" where
  "dos_image sig rest = le16 0x5A4D @ replicate 58 0 @ le32 0x40 @ le32 sig @ rest"

text \<open>
  A COFF header with \<open>nsec\<close> sections and \<open>SizeOfOptionalHeader = 96\<close>, and a PE32
  optional header with the magic \<open>magic\<close> and \<open>ndirs\<close> directories.
\<close>

definition coff_opt32 :: "16 word \<Rightarrow> 16 word \<Rightarrow> 32 word \<Rightarrow> byte list" where
  "coff_opt32 nsec magic ndirs =
     le16 0x14C @ le16 nsec @ replicate 12 0 @ le16 96 @ le16 0x102
     @ le16 magic @ replicate 14 0 @ le32 0x1000 @ replicate 8 0 @ le32 0x400000
     @ replicate 60 0 @ le32 ndirs"

definition section_bytes :: "IMAGE_SECTION_HEADER \<Rightarrow> byte list" where
  "section_bytes h = [0x2E, 0x74, 0x65, 0x78, 0x74, 0, 0, 0]
     @ le32 (VirtualSize h) @ le32 (VirtualAddress h)
     @ le32 (SizeOfRawData h) @ le32 (PointerToRawData h) @ replicate 16 0"

text \<open>A PE32 file with the section headers \<open>hs\<close>, no directories.\<close>

definition pe32_image :: "IMAGE_SECTION_HEADER list \<Rightarrow> byte list" where
  "pe32_image hs =
     dos_image 0x4550 (coff_opt32 (of_nat (length hs)) 0x10b 0 @ concat (map section_bytes hs))"

text \<open>The context after a successful \<open>pe_parse\<close> of the file (both allocations succeed).\<close>

definition parsed_ctx :: "ptr \<Rightarrow> byte list \<Rightarrow> pe_ctx_t" where
  "parsed_ctx base bs =
     (case pe_parse (file_map base bs) True True (loaded_ctx base bs) of
        Some (LIBPE_E_OK, ctx) \<Rightarrow> ctx
      | _ \<Rightarrow> loaded_ctx base bs)"

text \<open>The section of the specification's scenario 7, and the \<open>.text\<close> section of scenario 1.\<close>

definition sec7 :: IMAGE_SECTION_HEADER where
  "sec7 = \<lparr> VirtualSize = 0, VirtualAddress = 0x2000, SizeOfRawData = 0x400,
            PointerToRawData = 0x400 \<rparr>"

definition sec_text :: IMAGE_SECTION_HEADER where
  "sec_text = \<lparr> VirtualSize = 0x200, VirtualAddress = 0x1000, SizeOfRawData = 0x200,
            PointerToRawData = 0x200 \<rparr>"

text \<open>
  The context that the first part of \<open>pe_parse\<close> (lines 172 to 240) hands to the two
  bounds.
\<close>

definition headers_ctx :: "ptr \<Rightarrow> byte list \<Rightarrow> pe_ctx_t" where
  "headers_ctx base bs =
     (case pe_parse_headers (file_map base bs) (loaded_ctx base bs) of
        Some (Inr (sp, c)) \<Rightarrow> c
      | _ \<Rightarrow> loaded_ctx base bs)"

text \<open>
  The 3-byte file \<open>MZ\0\<close> of the specification's scenario 4; a file with the signature
  \<open>NE\0\0\<close> followed by the headers of scenario 1, and one that ends after the
  signature; PE32 files that declare 97 sections and 17, respectively 16, directories.
\<close>

definition truncated_image :: "byte list" where
  "truncated_image = [0x4D, 0x5A, 0]"

definition ne_image :: "byte list" where
  "ne_image = dos_image 0x454E (coff_opt32 1 0x10b 0 @ section_bytes sec_text)"

definition ne_short_image :: "byte list" where
  "ne_short_image = dos_image 0x454E []"

definition dirs17_image :: "byte list" where
  "dirs17_image = dos_image 0x4550 (coff_opt32 97 0x10b 17)"

definition secs97_image :: "byte list" where
  "secs97_image = dos_image 0x4550 (coff_opt32 97 0x10b 16)"

text \<open>
  Sections of files that are not well formed: a virtual range that ends beyond
  \<open>2 ^ 32\<close>; raw data at file offset 0; raw data shared with \<open>sec_text\<close>; a virtual
  range longer than the raw data, followed by a section inside that range.
\<close>

definition sec_wrap :: IMAGE_SECTION_HEADER where
  "sec_wrap = \<lparr> VirtualSize = 0x2000, VirtualAddress = 0xFFFFF000, SizeOfRawData = 0x200,
            PointerToRawData = 0x200 \<rparr>"

definition sec_a :: IMAGE_SECTION_HEADER where
  "sec_a = \<lparr> VirtualSize = 0x200, VirtualAddress = 0x1000, SizeOfRawData = 0x200,
            PointerToRawData = 0 \<rparr>"

definition sec_b :: IMAGE_SECTION_HEADER where
  "sec_b = \<lparr> VirtualSize = 0x200, VirtualAddress = 0x2000, SizeOfRawData = 0x200,
            PointerToRawData = 0x200 \<rparr>"

definition sec_c :: IMAGE_SECTION_HEADER where
  "sec_c = \<lparr> VirtualSize = 0x2000, VirtualAddress = 0x1000, SizeOfRawData = 0x200,
            PointerToRawData = 0x200 \<rparr>"

definition sec_d :: IMAGE_SECTION_HEADER where
  "sec_d = \<lparr> VirtualSize = 0x200, VirtualAddress = 0x2000, SizeOfRawData = 0x200,
            PointerToRawData = 0x400 \<rparr>"

section \<open>The vocabulary of the claims about the translator\<close>

text \<open>
  The specification's words, on exact natural numbers: the size a section counts with,
  an RVA inside a section's half-open virtual range, an offset inside its raw range.
\<close>

definition section_size :: "IMAGE_SECTION_HEADER \<Rightarrow> 32 word" where
  "section_size h = (if VirtualSize h \<noteq> 0 then VirtualSize h else SizeOfRawData h)"

definition rva_in_section :: "IMAGE_SECTION_HEADER \<Rightarrow> 64 word \<Rightarrow> bool" where
  "rva_in_section h rva \<longleftrightarrow>
     unat (VirtualAddress h) \<le> unat rva \<and>
     unat rva < unat (VirtualAddress h) + unat (section_size h)"

definition ofs_in_section :: "IMAGE_SECTION_HEADER \<Rightarrow> 64 word \<Rightarrow> bool" where
  "ofs_in_section h ofs \<longleftrightarrow>
     unat (PointerToRawData h) \<le> unat ofs \<and>
     unat ofs < unat (PointerToRawData h) + unat (SizeOfRawData h)"

text \<open>
  The premise of the round trip: \<open>r\<close> inside the section, \<open>VirtualSize > 0\<close> and
  \<open>r < VirtualAddress + SizeOfRawData\<close>.
\<close>

definition rva_raw_covered :: "IMAGE_SECTION_HEADER \<Rightarrow> 64 word \<Rightarrow> bool" where
  "rva_raw_covered h r \<longleftrightarrow>
     VirtualSize h \<noteq> 0 \<and>
     unat (VirtualAddress h) \<le> unat r \<and>
     unat r < unat (VirtualAddress h) + unat (VirtualSize h) \<and>
     unat r < unat (VirtualAddress h) + unat (SizeOfRawData h)"

text \<open>The inclusive range of \<open>rva_to_section\<close>, on exact natural numbers.\<close>

definition rva_in_closed_range :: "IMAGE_SECTION_HEADER \<Rightarrow> 64 word \<Rightarrow> bool" where
  "rva_in_closed_range h rva \<longleftrightarrow>
     unat (VirtualAddress h) \<le> unat rva \<and>
     unat rva \<le> unat (VirtualAddress h) + unat (VirtualSize h)"

text \<open>
  The sums \<open>VirtualAddress + VirtualSize\<close> and \<open>PointerToRawData + SizeOfRawData\<close>
  stay below \<open>2 ^ 32\<close>.
\<close>

definition virt_end_fits :: "IMAGE_SECTION_HEADER \<Rightarrow> bool" where
  "virt_end_fits h \<longleftrightarrow>
     unat (VirtualAddress h) + unat (VirtualSize h) < 0x100000000"


definition raw_end_fits :: "IMAGE_SECTION_HEADER \<Rightarrow> bool" where
  "raw_end_fits h \<longleftrightarrow>
     unat (PointerToRawData h) + unat (SizeOfRawData h) < 0x100000000"

text \<open>
  A parsed context with a section table whose headers can be read: the array is
  allocated, holds \<open>num_sections\<close> pointers, none of them \<open>NULL\<close>, and the headers
  they point to are \<open>hs\<close>, in declared order.
\<close>

definition section_table :: "mem_map \<Rightarrow> pe_ctx_t \<Rightarrow> IMAGE_SECTION_HEADER list \<Rightarrow> bool" where
  "section_table mp ctx hs \<longleftrightarrow>
     (case sections (pe ctx) of
        None \<Rightarrow> False
      | Some secs \<Rightarrow>
          length secs = unat (num_sections (pe ctx)) \<and>
          0 \<notin> set secs \<and>
          map (section_hdr mp) secs = map Some hs)"

declare rva2section_loop.simps [simp del] rva2ofs_loop.simps [simp del]
  ofs2rva_loop.simps [simp del]

section \<open>The vocabulary of the claims about the parser\<close>

text \<open>
  The context with which control leaves line 191 when the signature \<open>sg\<close> has been
  accepted; a context with its recorded signature replaced; and what steps 5 to 8 of the
  specification leave in a context: both counts within their bounds, and for each table
  either the array of pointers, when the count is positive, or a \<open>NULL\<close> start pointer.
\<close>

definition with_signature :: "32 word \<Rightarrow> pe_ctx_t \<Rightarrow> pe_ctx_t" where
  "with_signature s c = c \<lparr> pe := (pe c) \<lparr> signature := s \<rparr> \<rparr>"

definition signature_accepted :: "32 word \<Rightarrow> pe_ctx_t \<Rightarrow> pe_ctx_t" where
  "signature_accepted sg ctx =
     ctx \<lparr> pe := (pe ctx) \<lparr> dos_hdr := map_addr ctx, signature := sg \<rparr> \<rparr>"

definition tables_built :: "pe_ctx_t \<Rightarrow> bool" where
  "tables_built c \<longleftrightarrow>
     num_directories (pe c) \<le> MAX_DIRECTORIES \<and>
     num_sections (pe c) \<le> MAX_SECTIONS \<and>
     (if num_directories (pe c) > 0
      then directories (pe c) = Some
             (map (\<lambda>i. directories_ptr (pe c) + of_nat i * 8)
                [0 ..< unat (num_directories (pe c))])
      else directories_ptr (pe c) = 0) \<and>
     (if num_sections (pe c) > 0
      then sections (pe c) = Some
             (map (\<lambda>i. sections_ptr (pe c) + of_nat i * 40)
                [0 ..< unat (num_sections (pe c))])
      else sections_ptr (pe c) = 0)"

section \<open>The vocabulary of the proofs about the parser\<close>

text \<open>
  \<open>n\<close> bytes at \<open>p\<close> lie inside the region; the region ends below \<open>2 ^ 63\<close>; a
  later context has the mapping, the DOS header pointer, the signature and the COFF header
  pointer of an earlier one.
\<close>

definition readable :: "mem_map \<Rightarrow> ptr \<Rightarrow> nat \<Rightarrow> bool" where
  "readable mp p n \<longleftrightarrow>
     unat (m_base mp) \<le> unat p \<and> unat p + n \<le> unat (m_base mp) + length (m_bytes mp)"

definition region_ok :: "mem_map \<Rightarrow> bool" where
  "region_ok mp \<longleftrightarrow> unat (m_base mp) + length (m_bytes mp) < 0x8000000000000000"

definition keeps :: "pe_ctx_t \<Rightarrow> pe_ctx_t \<Rightarrow> bool" where
  "keeps c c' \<longleftrightarrow>
     map_addr c' = map_addr c \<and> map_size c' = map_size c \<and> map_end c' = map_end c \<and>
     dos_hdr (pe c') = dos_hdr (pe c) \<and> signature (pe c') = signature (pe c) \<and>
     coff_hdr (pe c') = coff_hdr (pe c)"

section \<open>Properties of the bounds check\<close>

text \<open>Where the sum does not wrap, \<open>pe_can_read\<close> is the exact check.\<close>

lemma pe_can_read_exact:
  assumes "unat p + unat n < 18446744073709551616"
  shows "pe_can_read ctx p n \<longleftrightarrow> contains_exact ctx p n"
proof -
  from assms have "unat (p + n) = unat p + unat n"
    using unat_add_lem [of p n] by simp
  then show ?thesis
    by (simp add: pe_can_read_def contains_exact_def word_le_nat_alt)
qed

text \<open>
  C5. The claim is that \<open>contains(ptr, len)\<close> is true exactly when
  \<open>base \<le> ptr\<close> and \<open>ptr + len \<le> end\<close> with the sum computed without wrap-around.
  \<open>pe_can_read\<close> computes the sum in \<open>uintptr_t\<close>: for the mapping from \<open>0x1000\<close> to
  \<open>0x2000\<close>, the pointer \<open>0x1800\<close> and the length \<open>2 ^ 64 - 0x800\<close> the sum wraps to
  \<open>0x1000\<close> and the check answers true, although the exact sum is far beyond the end.
\<close>

theorem pe_can_read_wraps:
  "pe_can_read ctx_page 0x1800 0xFFFFFFFFFFFFF800 \<and>
   \<not> contains_exact ctx_page 0x1800 0xFFFFFFFFFFFFF800"
  by (simp add: pe_can_read_def contains_exact_def ctx_page_def)

section \<open>Properties of section names\<close>

text \<open>
  C2. The claim is that a name field of 8 non-NUL bytes comes out as all 8 bytes followed
  by a NUL. \<open>pe_section_name\<close> writes the terminator at index
  \<open>SECTION_NAME_SIZE - 1\<close>, over the eighth byte it has just copied: for the name
  \<open>.textbss\<close> and a 9-byte buffer the string returned is \<open>.textbs\<close>.
\<close>

theorem pe_section_name_drops_eighth_byte:
  "map_option c_string
     (pe_section_name [0x2E, 0x74, 0x65, 0x78, 0x74, 0x62, 0x73, 0x73] (replicate 9 0xFF))
   = Some [0x2E, 0x74, 0x65, 0x78, 0x74, 0x62, 0x73]"
  by code_simp

section \<open>Properties of the address translator\<close>

lemma unat_ucast_32_64: "unat (ucast (w :: 32 word) :: 64 word) = unat w"
  using unsigned_less [of w, where 'a = nat]
  by (simp add: unsigned_ucast_eq take_bit_nat_eq_self_iff)

lemma unat32_bound: "unat (w :: 32 word) < 4294967296"
  using unsigned_less [of w, where 'a = nat] by simp

lemma ucast32_le: "(ucast (w :: 32 word) :: 64 word) \<le> r \<longleftrightarrow> unat w \<le> unat r"
  by (simp add: word_le_nat_alt unat_ucast_32_64)

lemma unat_add_32_64:
  "unat (ucast (a :: 32 word) + ucast (b :: 32 word) :: 64 word) = unat a + unat b"
  using unat32_bound [of a] unat32_bound [of b]
  by (simp add: unat_word_ariths unat_ucast_32_64)

lemma ucast32_add_gt:
  "(ucast (a :: 32 word) + ucast (b :: 32 word) :: 64 word) > r \<longleftrightarrow> unat r < unat a + unat b"
  by (simp add: word_less_nat_alt unat_add_32_64)

lemma ucast32_eq_0: "(ucast (w :: 32 word) :: 64 word) = 0 \<longleftrightarrow> w = 0"
  by (metis unat_ucast_32_64 unat_eq_zero)

lemma unat_translate:
  assumes "unat (va :: 32 word) \<le> unat (rva :: 64 word)"
    and "unat rva - unat va + unat (pr :: 32 word) < 2 ^ 64"
  shows "unat (rva - ucast va + ucast pr) = unat rva - unat va + unat pr"
proof -
  have le: "(ucast va :: 64 word) \<le> rva"
    using assms(1) by (simp add: ucast32_le)
  have "unat (rva - ucast va) = unat rva - unat va"
    using le by (simp add: unat_sub unat_ucast_32_64)
  then show ?thesis
    using assms(2) by (simp add: unat_add_lem [THEN iffD1] unat_ucast_32_64)
qed

lemma section_hdr_fields:
  assumes "section_hdr mp p = Some h"
  shows "sec_VirtualSize mp p = Some (VirtualSize h)"
    and "sec_VirtualAddress mp p = Some (VirtualAddress h)"
    and "sec_SizeOfRawData mp p = Some (SizeOfRawData h)"
    and "sec_PointerToRawData mp p = Some (PointerToRawData h)"
  using assms by (auto simp: section_hdr_def split: Option.bind_splits)

lemma section_table_entry:
  assumes "section_table mp ctx hs" and "sections (pe ctx) = Some secs" and "i < length hs"
  shows "i < unat (num_sections (pe ctx))" and "i < length secs" and "secs ! i \<noteq> 0"
    and "section_hdr mp (secs ! i) = Some (hs ! i)"
proof -
  from assms(1,2) have len: "length secs = unat (num_sections (pe ctx))"
    and nz: "0 \<notin> set secs" and m: "map (section_hdr mp) secs = map Some hs"
    by (simp_all add: section_table_def)
  from m have l2: "length secs = length hs"
    by (metis length_map)
  with assms(3) len show "i < unat (num_sections (pe ctx))" and "i < length secs" by simp_all
  from nz l2 assms(3) show "secs ! i \<noteq> 0"
    by (metis nth_mem)
  from m l2 assms(3) show "section_hdr mp (secs ! i) = Some (hs ! i)"
    by (metis nth_map)
qed

lemma rva2ofs_loop_step:
  assumes "i < unat (num_sections (pe ctx))" and "i < length secs" and "secs ! i \<noteq> 0"
    and "section_hdr mp (secs ! i) = Some h"
  shows "rva2ofs_loop mp ctx secs rva i =
     (if rva_in_section h rva
      then Some (rva - ucast (VirtualAddress h) + ucast (PointerToRawData h))
      else rva2ofs_loop mp ctx secs rva (i + 1))"
  using assms section_hdr_fields [OF assms(4)]
  by (subst rva2ofs_loop.simps)
     (auto simp: rva_in_section_def section_size_def ucast32_eq_0 word_le_nat_alt
        word_less_nat_alt unat_add_32_64 unat_ucast_32_64)

lemma rva2ofs_loop_first:
  assumes tab: "section_table mp ctx hs" and secs: "sections (pe ctx) = Some secs"
    and k: "k < length hs" and hit: "rva_in_section (hs ! k) rva"
    and miss: "\<forall>j<k. \<not> rva_in_section (hs ! j) rva"
  shows "i \<le> k \<Longrightarrow> rva2ofs_loop mp ctx secs rva i =
     Some (rva - ucast (VirtualAddress (hs ! k)) + ucast (PointerToRawData (hs ! k)))"
proof (induction "k - i" arbitrary: i)
  case 0
  then have "i = k" by simp
  with hit k show ?case
    by (simp add: rva2ofs_loop_step [OF section_table_entry [OF tab secs]])
next
  case (Suc d)
  then have lt: "i < k" and d: "d = k - (i + 1)" and le: "i + 1 \<le> k" by simp_all
  from lt k have "i < length hs" by simp
  moreover from lt miss have "\<not> rva_in_section (hs ! i) rva" by simp
  ultimately show ?case
    using Suc.hyps(1) [OF d le]
    by (simp add: rva2ofs_loop_step [OF section_table_entry [OF tab secs]])
qed

text \<open>
  C7. In a parsed context with a section table, for a nonzero \<open>rva\<close>, \<open>pe_rva2ofs\<close>
  scans the sections in declared order with \<open>section_size = VirtualSize\<close> when that is
  nonzero and \<open>SizeOfRawData\<close> otherwise, and for the first section with
  \<open>VirtualAddress \<le> rva < VirtualAddress + section_size\<close> it returns
  \<open>rva - VirtualAddress + PointerToRawData\<close>, a sum that does not wrap. The witness is
  the case of the claim: one section with \<open>VirtualAddress = 0x2000\<close>,
  \<open>VirtualSize = 0\<close>, \<open>SizeOfRawData = 0x400\<close>, \<open>PointerToRawData = 0x400\<close> and the
  RVA \<open>0x2100\<close>, which gives \<open>0x500\<close>.
\<close>

theorem pe_rva2ofs_first_match:
  assumes "section_table mp ctx hs" and "rva \<noteq> 0" and "k < length hs"
    and "rva_in_section (hs ! k) rva"
    and "\<forall>j<k. \<not> rva_in_section (hs ! j) rva"
  shows "pe_rva2ofs mp ctx rva =
           Some (rva - ucast (VirtualAddress (hs ! k)) + ucast (PointerToRawData (hs ! k))) \<and>
         unat (rva - ucast (VirtualAddress (hs ! k)) + ucast (PointerToRawData (hs ! k))) =
           unat rva - unat (VirtualAddress (hs ! k)) + unat (PointerToRawData (hs ! k))"
proof -
  from assms(1) obtain secs where secs: "sections (pe ctx) = Some secs"
    by (auto simp: section_table_def split: option.splits)
  have "rva2ofs_loop mp ctx secs rva 0 =
      Some (rva - ucast (VirtualAddress (hs ! k)) + ucast (PointerToRawData (hs ! k)))"
    by (rule rva2ofs_loop_first [OF assms(1) secs assms(3,4,5)]) simp
  then have a: "pe_rva2ofs mp ctx rva =
      Some (rva - ucast (VirtualAddress (hs ! k)) + ucast (PointerToRawData (hs ! k)))"
    using assms(2) secs by (simp add: pe_rva2ofs_def)
  have "unat rva - unat (VirtualAddress (hs ! k)) + unat (PointerToRawData (hs ! k))
      < (18446744073709551616 :: nat)"
    using assms(4) unat32_bound [of "section_size (hs ! k)"]
      unat32_bound [of "PointerToRawData (hs ! k)"] unat32_bound [of "VirtualAddress (hs ! k)"]
    unfolding rva_in_section_def by arith
  then have "unat rva - unat (VirtualAddress (hs ! k)) + unat (PointerToRawData (hs ! k)) < 2 ^ 64"
    by simp
  with assms(4) have b: "unat (rva - ucast (VirtualAddress (hs ! k)) + ucast (PointerToRawData (hs ! k))) =
           unat rva - unat (VirtualAddress (hs ! k)) + unat (PointerToRawData (hs ! k))"
    by (intro unat_translate) (simp_all add: rva_in_section_def)
  from a b show ?thesis by simp
qed


lemma section_table_single:
  assumes "section_table mp ctx [h]"
  obtains p where "sections (pe ctx) = Some [p]" and "num_sections (pe ctx) = 1"
    and "p \<noteq> 0" and "section_hdr mp p = Some h"
proof -
  from assms obtain secs where secs: "sections (pe ctx) = Some secs"
    by (auto simp: section_table_def split: option.splits)
  from section_table_entry [OF assms secs, of 0]
  have e: "0 < length secs" "secs ! 0 \<noteq> 0" "section_hdr mp (secs ! 0) = Some h" by simp_all
  from assms secs have "length secs = 1" and n: "unat (num_sections (pe ctx)) = 1"
    by (auto simp: section_table_def dest: arg_cong [where f = length])
  then have "secs = [secs ! 0]"
    by (cases secs) simp_all
  moreover from n have "num_sections (pe ctx) = 1"
    by (metis unat_1 word_unat_eq_iff)
  ultimately show thesis using that secs e by metis
qed

lemma uint_ucast_32_64: "uint (ucast (w :: 32 word) :: 64 word) = uint w"
  by (simp add: uint_up_ucast is_up)

lemma uint_translate:
  "uint (rva - ucast (va :: 32 word) + ucast (pr :: 32 word) :: 64 word) =
     (uint rva - uint va + uint pr) mod 2 ^ 64"
  by (simp add: uint_word_ariths uint_ucast_32_64 mod_add_left_eq)

text \<open>
  C10. In a parsed context with exactly one section, for a nonzero \<open>rva\<close> outside that
  section's range, \<open>pe_rva2ofs\<close> still applies the adjustment of section 0: it returns
  \<open>rva - VirtualAddress + PointerToRawData\<close> computed modulo \<open>2 ^ 64\<close>, neither an
  error nor the unchanged \<open>rva\<close>. In the witness \<open>rva = 0x10\<close> lies below the section
  at \<open>0x1000\<close> and the result is \<open>2 ^ 64 - 0xDF0\<close>.
\<close>

theorem pe_rva2ofs_single_section:
  assumes "section_table mp ctx [h]" and "rva \<noteq> 0" and "\<not> rva_in_section h rva"
  shows "pe_rva2ofs mp ctx rva =
           Some (rva - ucast (VirtualAddress h) + ucast (PointerToRawData h)) \<and>
         uint (rva - ucast (VirtualAddress h) + ucast (PointerToRawData h)) =
           (uint rva - uint (VirtualAddress h) + uint (PointerToRawData h)) mod 2 ^ 64"
proof -
  from assms(1) obtain p where p: "sections (pe ctx) = Some [p]" "num_sections (pe ctx) = 1"
    "p \<noteq> 0" "section_hdr mp p = Some h"
    by (rule section_table_single)
  have "rva2ofs_loop mp ctx [p] rva 0 = rva2ofs_loop mp ctx [p] rva (0 + 1)"
    using p assms(3) by (subst rva2ofs_loop_step [where h = h]) simp_all
  also have "\<dots> = Some (rva - ucast (VirtualAddress h) + ucast (PointerToRawData h))"
    using p section_hdr_fields [OF p(4)] by (subst rva2ofs_loop.simps) simp
  finally show ?thesis
    using assms(2) p(1) by (simp add: pe_rva2ofs_def uint_translate)
qed

theorem pe_rva2ofs_first_match_witness:
  "section_table (file_map 0x10000 (pe32_image [sec7]))
     (parsed_ctx 0x10000 (pe32_image [sec7])) [sec7] \<and>
   rva_in_section sec7 0x2100 \<and>
   pe_rva2ofs (file_map 0x10000 (pe32_image [sec7]))
     (parsed_ctx 0x10000 (pe32_image [sec7])) 0x2100 = Some 0x500"
proof -
  have tab: "section_table (file_map 0x10000 (pe32_image [sec7]))
     (parsed_ctx 0x10000 (pe32_image [sec7])) [sec7]"
    by code_simp
  have hit: "rva_in_section ([sec7] ! 0) 0x2100"
    by code_simp
  from pe_rva2ofs_first_match [OF tab _ _ hit] tab hit
  show ?thesis by (simp add: sec7_def)
qed

theorem pe_rva2ofs_single_section_witness:
  "section_table (file_map 0x10000 (pe32_image [sec_text]))
     (parsed_ctx 0x10000 (pe32_image [sec_text])) [sec_text] \<and>
   \<not> rva_in_section sec_text 0x10 \<and>
   pe_rva2ofs (file_map 0x10000 (pe32_image [sec_text]))
     (parsed_ctx 0x10000 (pe32_image [sec_text])) 0x10 = Some 0xFFFFFFFFFFFFF210"
proof -
  have tab: "section_table (file_map 0x10000 (pe32_image [sec_text]))
     (parsed_ctx 0x10000 (pe32_image [sec_text])) [sec_text]"
    by code_simp
  have miss: "\<not> rva_in_section sec_text 0x10"
    by code_simp
  from pe_rva2ofs_single_section [OF tab _ miss, THEN conjunct1] tab miss
  show ?thesis by (simp add: sec_text_def)
qed

lemma unat_sum32_fits:
  assumes "raw_end_fits h"
  shows "unat (ucast (PointerToRawData h + SizeOfRawData h) :: 64 word) =
     unat (PointerToRawData h) + unat (SizeOfRawData h)"
  using assms by (simp add: raw_end_fits_def unat_ucast_32_64 unat_word_ariths)

lemma ofs2rva_loop_step:
  assumes "i < unat (num_sections (pe ctx))" and "i < length secs" and "secs ! i \<noteq> 0"
    and "section_hdr mp (secs ! i) = Some h" and "raw_end_fits h"
  shows "ofs2rva_loop mp ctx secs ofs i =
     (if ofs_in_section h ofs
      then Some (ofs - ucast (PointerToRawData h) + ucast (VirtualAddress h))
      else ofs2rva_loop mp ctx secs ofs (i + 1))"
  using assms(1-3) section_hdr_fields [OF assms(4)] unat_sum32_fits [OF assms(5)]
  by (subst ofs2rva_loop.simps)
     (auto simp: ofs_in_section_def word_le_nat_alt word_less_nat_alt unat_ucast_32_64)

lemma ofs2rva_loop_first:
  assumes tab: "section_table mp ctx hs" and secs: "sections (pe ctx) = Some secs"
    and k: "k < length hs" and hit: "ofs_in_section (hs ! k) ofs"
    and fits: "\<forall>j\<le>k. raw_end_fits (hs ! j)"
    and miss: "\<forall>j<k. \<not> ofs_in_section (hs ! j) ofs"
  shows "i \<le> k \<Longrightarrow> ofs2rva_loop mp ctx secs ofs i =
     Some (ofs - ucast (PointerToRawData (hs ! k)) + ucast (VirtualAddress (hs ! k)))"
proof (induction "k - i" arbitrary: i)
  case 0
  then have "i = k" by simp
  with hit k fits show ?case
    by (simp add: ofs2rva_loop_step [OF section_table_entry [OF tab secs]])
next
  case (Suc d)
  then have lt: "i < k" and d: "d = k - (i + 1)" and le: "i + 1 \<le> k" by simp_all
  from lt k have "i < length hs" by simp
  moreover from lt miss have "\<not> ofs_in_section (hs ! i) ofs" by simp
  moreover from lt fits have "raw_end_fits (hs ! i)" by simp
  ultimately show ?case
    using Suc.hyps(1) [OF d le]
    by (simp add: ofs2rva_loop_step [OF section_table_entry [OF tab secs]])
qed

text \<open>
  C3, as amended. Let \<open>S\<close> be a section of a parsed context and \<open>r\<close> an RVA inside
  \<open>S\<close> with \<open>S.VirtualSize > 0\<close> and \<open>r < S.VirtualAddress + S.SizeOfRawData\<close>. If
  \<open>S\<close> is the first section in declared order whose range
  \<open>[VirtualAddress, VirtualAddress + section_size)\<close> contains \<open>r\<close>, the offset
  \<open>r - S.VirtualAddress + S.PointerToRawData\<close> is not 0 and lies in the raw range
  \<open>[PointerToRawData, PointerToRawData + SizeOfRawData)\<close> of no earlier section, and
  \<open>PointerToRawData + SizeOfRawData < 2 ^ 32\<close> for \<open>S\<close> and the sections before it,
  then \<open>offset_to_rva(rva_to_offset(r)) = r\<close>.
\<close>

theorem round_trip_first_sections:
  assumes tab: "section_table mp ctx hs" and k: "k < length hs"
    and cov: "rva_raw_covered (hs ! k) r"
    and first_rva: "\<forall>j<k. \<not> rva_in_section (hs ! j) r"
    and nz: "r - ucast (VirtualAddress (hs ! k)) + ucast (PointerToRawData (hs ! k)) \<noteq> 0"
    and fits: "\<forall>j\<le>k. raw_end_fits (hs ! j)"
    and first_ofs: "\<forall>j<k. \<not> ofs_in_section (hs ! j)
        (r - ucast (VirtualAddress (hs ! k)) + ucast (PointerToRawData (hs ! k)))"
  shows "Option.bind (pe_rva2ofs mp ctx r) (pe_ofs2rva mp ctx) = Some r"
proof -
  let ?ofs = "r - ucast (VirtualAddress (hs ! k)) + ucast (PointerToRawData (hs ! k))"
  from tab obtain secs where secs: "sections (pe ctx) = Some secs"
    by (auto simp: section_table_def split: option.splits)
  from cov have vs: "VirtualSize (hs ! k) \<noteq> 0"
    and lo: "unat (VirtualAddress (hs ! k)) \<le> unat r"
    and hi: "unat r < unat (VirtualAddress (hs ! k)) + unat (VirtualSize (hs ! k))"
    and raw: "unat r < unat (VirtualAddress (hs ! k)) + unat (SizeOfRawData (hs ! k))"
    by (simp_all add: rva_raw_covered_def)
  show ?thesis
  proof (cases "r = 0")
    case True
    with secs show ?thesis
      by (simp add: pe_rva2ofs_def pe_ofs2rva_def)
  next
    case False
    have inr: "rva_in_section (hs ! k) r"
      using vs lo hi by (simp add: rva_in_section_def section_size_def)
    have fwd: "rva2ofs_loop mp ctx secs r 0 = Some ?ofs"
      by (rule rva2ofs_loop_first [OF tab secs k inr first_rva]) simp
    have "unat r - unat (VirtualAddress (hs ! k)) + unat (PointerToRawData (hs ! k))
        < (18446744073709551616 :: nat)"
      using raw unat32_bound [of "SizeOfRawData (hs ! k)"]
        unat32_bound [of "PointerToRawData (hs ! k)"] unat32_bound [of "VirtualAddress (hs ! k)"]
      by arith
    then have "unat r - unat (VirtualAddress (hs ! k)) + unat (PointerToRawData (hs ! k)) < 2 ^ 64"
      by simp
    with lo have u: "unat ?ofs =
        unat r - unat (VirtualAddress (hs ! k)) + unat (PointerToRawData (hs ! k))"
      by (intro unat_translate)
    have ino: "ofs_in_section (hs ! k) ?ofs"
      unfolding ofs_in_section_def u using lo raw by arith
    have "ofs2rva_loop mp ctx secs ?ofs 0 =
        Some (?ofs - ucast (PointerToRawData (hs ! k)) + ucast (VirtualAddress (hs ! k)))"
      by (rule ofs2rva_loop_first [OF tab secs k ino fits first_ofs]) simp
    then have bwd: "ofs2rva_loop mp ctx secs ?ofs 0 = Some r"
      by simp
    from False secs fwd bwd nz show ?thesis
      by (simp add: pe_rva2ofs_def pe_ofs2rva_def)
  qed
qed


theorem round_trip_first_sections_witness:
  "section_table (file_map 0x10000 (pe32_image [sec_text]))
     (parsed_ctx 0x10000 (pe32_image [sec_text])) [sec_text] \<and>
   rva_raw_covered sec_text 0x1050 \<and> raw_end_fits sec_text \<and>
   Option.bind
     (pe_rva2ofs (file_map 0x10000 (pe32_image [sec_text]))
        (parsed_ctx 0x10000 (pe32_image [sec_text])) 0x1050)
     (pe_ofs2rva (file_map 0x10000 (pe32_image [sec_text]))
        (parsed_ctx 0x10000 (pe32_image [sec_text]))) = Some 0x1050"
proof -
  have tab: "section_table (file_map 0x10000 (pe32_image [sec_text]))
     (parsed_ctx 0x10000 (pe32_image [sec_text])) [sec_text]"
    by code_simp
  have a: "rva_raw_covered sec_text 0x1050"
    by (simp add: rva_raw_covered_def sec_text_def)
  have b: "raw_end_fits sec_text"
    by (simp add: raw_end_fits_def sec_text_def)
  have "Option.bind
     (pe_rva2ofs (file_map 0x10000 (pe32_image [sec_text]))
        (parsed_ctx 0x10000 (pe32_image [sec_text])) 0x1050)
     (pe_ofs2rva (file_map 0x10000 (pe32_image [sec_text]))
        (parsed_ctx 0x10000 (pe32_image [sec_text]))) = Some 0x1050"
    using a b by (intro round_trip_first_sections [OF tab, of 0]) (simp_all add: sec_text_def)
  with tab a b show ?thesis by simp
qed

text \<open>
  C3, as stated, fails on three files that \<open>pe_parse\<close> accepts. With the raw data of the
  only section at file offset 0, the RVA \<open>0x1000\<close> translates to offset 0, which
  \<open>pe_ofs2rva\<close> answers with 0. With two sections that share their raw data, the RVA
  \<open>0x2010\<close> of the second comes back as \<open>0x1010\<close> in the first. With a first section
  whose virtual range is longer than its raw data and covers the second section, the RVA
  \<open>0x2010\<close> of the second is translated through the first, to an offset that no raw
  range contains, and comes back as 0.
\<close>

theorem round_trip_counterexample:
  "(section_table (file_map 0x10000 (pe32_image [sec_a]))
      (parsed_ctx 0x10000 (pe32_image [sec_a])) [sec_a] \<and>
    rva_raw_covered sec_a 0x1000 \<and>
    Option.bind
      (pe_rva2ofs (file_map 0x10000 (pe32_image [sec_a]))
         (parsed_ctx 0x10000 (pe32_image [sec_a])) 0x1000)
      (pe_ofs2rva (file_map 0x10000 (pe32_image [sec_a]))
         (parsed_ctx 0x10000 (pe32_image [sec_a]))) = Some 0) \<and>
   (section_table (file_map 0x10000 (pe32_image [sec_text, sec_b]))
      (parsed_ctx 0x10000 (pe32_image [sec_text, sec_b])) [sec_text, sec_b] \<and>
    rva_raw_covered sec_b 0x2010 \<and>
    Option.bind
      (pe_rva2ofs (file_map 0x10000 (pe32_image [sec_text, sec_b]))
         (parsed_ctx 0x10000 (pe32_image [sec_text, sec_b])) 0x2010)
      (pe_ofs2rva (file_map 0x10000 (pe32_image [sec_text, sec_b]))
         (parsed_ctx 0x10000 (pe32_image [sec_text, sec_b]))) = Some 0x1010) \<and>
   (section_table (file_map 0x10000 (pe32_image [sec_c, sec_d]))
      (parsed_ctx 0x10000 (pe32_image [sec_c, sec_d])) [sec_c, sec_d] \<and>
    rva_raw_covered sec_d 0x2010 \<and>
    Option.bind
      (pe_rva2ofs (file_map 0x10000 (pe32_image [sec_c, sec_d]))
         (parsed_ctx 0x10000 (pe32_image [sec_c, sec_d])) 0x2010)
      (pe_ofs2rva (file_map 0x10000 (pe32_image [sec_c, sec_d]))
         (parsed_ctx 0x10000 (pe32_image [sec_c, sec_d]))) = Some 0)"
proof -
  have a1: "section_table (file_map 0x10000 (pe32_image [sec_a]))
      (parsed_ctx 0x10000 (pe32_image [sec_a])) [sec_a]"
    by code_simp
  have a2: "rva_raw_covered sec_a 0x1000"
    by (simp add: rva_raw_covered_def sec_a_def)
  have a3: "Option.bind
      (pe_rva2ofs (file_map 0x10000 (pe32_image [sec_a]))
         (parsed_ctx 0x10000 (pe32_image [sec_a])) 0x1000)
      (pe_ofs2rva (file_map 0x10000 (pe32_image [sec_a]))
         (parsed_ctx 0x10000 (pe32_image [sec_a]))) = Some 0"
    by code_simp
  have b1: "section_table (file_map 0x10000 (pe32_image [sec_text, sec_b]))
      (parsed_ctx 0x10000 (pe32_image [sec_text, sec_b])) [sec_text, sec_b]"
    by code_simp
  have b2: "rva_raw_covered sec_b 0x2010"
    by (simp add: rva_raw_covered_def sec_b_def)
  have b3: "Option.bind
      (pe_rva2ofs (file_map 0x10000 (pe32_image [sec_text, sec_b]))
         (parsed_ctx 0x10000 (pe32_image [sec_text, sec_b])) 0x2010)
      (pe_ofs2rva (file_map 0x10000 (pe32_image [sec_text, sec_b]))
         (parsed_ctx 0x10000 (pe32_image [sec_text, sec_b]))) = Some 0x1010"
    by code_simp
  have c1: "section_table (file_map 0x10000 (pe32_image [sec_c, sec_d]))
      (parsed_ctx 0x10000 (pe32_image [sec_c, sec_d])) [sec_c, sec_d]"
    by code_simp
  have c2: "rva_raw_covered sec_d 0x2010"
    by (simp add: rva_raw_covered_def sec_d_def)
  have c3: "Option.bind
      (pe_rva2ofs (file_map 0x10000 (pe32_image [sec_c, sec_d]))
         (parsed_ctx 0x10000 (pe32_image [sec_c, sec_d])) 0x2010)
      (pe_ofs2rva (file_map 0x10000 (pe32_image [sec_c, sec_d]))
         (parsed_ctx 0x10000 (pe32_image [sec_c, sec_d]))) = Some 0"
    by code_simp
  from a1 a2 a3 b1 b2 b3 c1 c2 c3 show ?thesis by blast
qed

text \<open>
  Where no sum \<open>VirtualAddress + VirtualSize\<close> reaches \<open>2 ^ 32\<close>,
  \<open>pe_rva2section\<close> returns the first section whose inclusive range contains the RVA;
  it returns \<open>NULL\<close> for the RVA 0 and for a context without section table.
\<close>

lemma rva2section_loop_step:
  assumes "i < unat (num_sections (pe ctx))" and "i < length secs"
    and "section_hdr mp (secs ! i) = Some h" and "virt_end_fits h"
  shows "rva2section_loop mp ctx secs rva i =
     (if rva_in_closed_range h rva then Some (secs ! i)
      else rva2section_loop mp ctx secs rva (i + 1))"
proof -
  from assms(4) have "unat (ucast (VirtualAddress h + VirtualSize h) :: 64 word) =
      unat (VirtualAddress h) + unat (VirtualSize h)"
    by (simp add: virt_end_fits_def unat_ucast_32_64 unat_word_ariths)
  then show ?thesis
    using assms(1,2) section_hdr_fields [OF assms(3)]
    by (subst rva2section_loop.simps)
       (auto simp: rva_in_closed_range_def word_le_nat_alt unat_ucast_32_64)
qed

lemma rva2section_loop_first:
  assumes tab: "section_table mp ctx hs" and secs: "sections (pe ctx) = Some secs"
    and k: "k < length hs" and hit: "rva_in_closed_range (hs ! k) rva"
    and fits: "\<forall>j\<le>k. virt_end_fits (hs ! j)"
    and miss: "\<forall>j<k. \<not> rva_in_closed_range (hs ! j) rva"
  shows "i \<le> k \<Longrightarrow> rva2section_loop mp ctx secs rva i = Some (secs ! k)"
proof (induction "k - i" arbitrary: i)
  case 0
  then have "i = k" by simp
  with hit k fits show ?case
    using section_table_entry [OF tab secs, of k]
    by (simp add: rva2section_loop_step [where h = "hs ! k"])
next
  case (Suc d)
  then have lt: "i < k" and d: "d = k - (i + 1)" and le: "i + 1 \<le> k" by simp_all
  from lt k have "i < length hs" by simp
  moreover from lt miss have "\<not> rva_in_closed_range (hs ! i) rva" by simp
  moreover from lt fits have "virt_end_fits (hs ! i)" by simp
  ultimately show ?case
    using Suc.hyps(1) [OF d le] section_table_entry [OF tab secs, of i]
    by (simp add: rva2section_loop_step [where h = "hs ! i"])
qed

lemma pe_rva2section_first:
  assumes "section_table mp ctx hs" and "sections (pe ctx) = Some secs" and "rva \<noteq> 0"
    and "k < length hs" and "rva_in_closed_range (hs ! k) rva"
    and "\<forall>j\<le>k. virt_end_fits (hs ! j)"
    and "\<forall>j<k. \<not> rva_in_closed_range (hs ! j) rva"
  shows "pe_rva2section mp ctx rva = Some (secs ! k)"
  using rva2section_loop_first [OF assms(1,2,4,5,6,7), of 0] assms(2,3)
  by (simp add: pe_rva2section_def)

lemma pe_rva2section_none:
  "rva = 0 \<or> sections (pe ctx) = None \<Longrightarrow> pe_rva2section mp ctx rva = Some 0"
  by (auto simp: pe_rva2section_def split: option.splits)

text \<open>
  C6. The claim is that \<open>rva_to_section\<close> returns the first section with
  \<open>VirtualAddress \<le> rva \<le> VirtualAddress + VirtualSize\<close>. \<open>pe_rva2section\<close> adds
  the two 32-bit fields in 32 bits before widening the sum: for the section with
  \<open>VirtualAddress = 0xFFFFF000\<close> and \<open>VirtualSize = 0x2000\<close> the upper bound wraps to
  \<open>0x1000\<close>, and for the RVA \<open>0xFFFFF800\<close>, which lies in the range, the function
  returns \<open>NULL\<close>.
\<close>

theorem pe_rva2section_wraps:
  "section_table (file_map 0x10000 (pe32_image [sec_wrap]))
     (parsed_ctx 0x10000 (pe32_image [sec_wrap])) [sec_wrap] \<and>
   rva_in_closed_range sec_wrap 0xFFFFF800 \<and>
   pe_rva2section (file_map 0x10000 (pe32_image [sec_wrap]))
     (parsed_ctx 0x10000 (pe32_image [sec_wrap])) 0xFFFFF800 = Some 0"
proof -
  have a: "section_table (file_map 0x10000 (pe32_image [sec_wrap]))
     (parsed_ctx 0x10000 (pe32_image [sec_wrap])) [sec_wrap]"
    by code_simp
  have b: "rva_in_closed_range sec_wrap 0xFFFFF800"
    by (simp add: rva_in_closed_range_def sec_wrap_def)
  have c: "pe_rva2section (file_map 0x10000 (pe32_image [sec_wrap]))
     (parsed_ctx 0x10000 (pe32_image [sec_wrap])) 0xFFFFF800 = Some 0"
    by code_simp
  from a b c show ?thesis by simp
qed

section \<open>Properties of the structural parser\<close>

lemma unat_plus64:
  "unat (x :: 64 word) + unat y < 18446744073709551616 \<Longrightarrow> unat (x + y) = unat x + unat y"
  using unat_add_lem [of x y] by simp

lemma load8_readable:
  assumes "readable mp p 1"
  shows "load8 mp p = Some (m_bytes mp ! (unat p - unat (m_base mp)))"
proof -
  from assms have le: "m_base mp \<le> p"
    by (simp add: readable_def word_le_nat_alt)
  then have "unat (p - m_base mp) = unat p - unat (m_base mp)"
    by (simp add: unat_sub)
  with assms show ?thesis
    by (simp add: load8_def readable_def Let_def) arith
qed

lemma readable_add:
  assumes "readable mp p n" and "region_ok mp" and "unat d + w \<le> n"
  shows "readable mp (p + d) w"
proof -
  from assms have "unat p + unat d < 18446744073709551616"
    by (simp add: readable_def region_ok_def)
  then have "unat (p + d) = unat p + unat d"
    by (rule unat_plus64)
  with assms show ?thesis
    by (simp add: readable_def)
qed

lemma readable_mono: "readable mp p n \<Longrightarrow> w \<le> n \<Longrightarrow> readable mp p w"
  by (simp add: readable_def)

lemma load16_readable:
  assumes "readable mp p 2" and "region_ok mp"
  shows "\<exists>v. load16 mp p = Some v"
proof -
  have "readable mp p 1"
    using assms(1) by (rule readable_mono) simp
  moreover have "readable mp (p + 1) 1"
    using assms by (rule readable_add) simp
  ultimately show ?thesis
    by (simp add: load16_def load8_readable)
qed

lemma load32_readable:
  assumes "readable mp p 4" and "region_ok mp"
  shows "\<exists>v. load32 mp p = Some v"
proof -
  have "readable mp p 2"
    using assms(1) by (rule readable_mono) simp
  then obtain lo where "load16 mp p = Some lo"
    using assms(2) load16_readable by blast
  moreover have "readable mp (p + 2) 2"
    using assms by (rule readable_add) simp
  then obtain hi where "load16 mp (p + 2) = Some hi"
    using assms(2) load16_readable by blast
  ultimately show ?thesis
    by (simp add: load32_def)
qed

lemma load64_readable:
  assumes "readable mp p 8" and "region_ok mp"
  shows "\<exists>v. load64 mp p = Some v"
proof -
  have "readable mp p 4"
    using assms(1) by (rule readable_mono) simp
  then obtain lo where "load32 mp p = Some lo"
    using assms(2) load32_readable by blast
  moreover have "readable mp (p + 4) 4"
    using assms by (rule readable_add) simp
  then obtain hi where "load32 mp (p + 4) = Some hi"
    using assms(2) load32_readable by blast
  ultimately show ?thesis
    by (simp add: load64_def)
qed

lemma mapped_region_ok: "mapped mp ctx \<Longrightarrow> region_ok mp"
  by (simp add: mapped_def region_ok_def)

lemma mapped_end:
  assumes "mapped mp ctx"
  shows "unat (map_end ctx) = unat (m_base mp) + length (m_bytes mp)"
proof -
  from assms have b: "unat (m_base mp) + length (m_bytes mp) < 0x8000000000000000"
    by (simp add: mapped_def)
  then have "unat (of_nat (length (m_bytes mp)) :: 64 word) = length (m_bytes mp)"
    by (simp add: unat_of_nat)
  moreover from this b
  have "unat (m_base mp + of_nat (length (m_bytes mp))) =
      unat (m_base mp) + unat (of_nat (length (m_bytes mp)) :: 64 word)"
    by (intro unat_plus64) simp
  ultimately show ?thesis
    using assms by (simp add: mapped_def)
qed

lemma can_read_readable:
  assumes "mapped mp ctx" and "pe_can_read ctx p n"
    and "unat p + unat n < 18446744073709551616"
  shows "readable mp p (unat n)"
proof -
  from assms(3) have "unat (p + n) = unat p + unat n"
    by (rule unat_plus64)
  with assms(1,2) mapped_end [OF assms(1)] show ?thesis
    by (simp add: pe_can_read_def readable_def word_le_nat_alt mapped_def)
qed


lemma pe_can_read_pe_update [simp]: "pe_can_read (c \<lparr> pe := x \<rparr>) p n = pe_can_read c p n"
  by (simp add: pe_can_read_def)

lemma mapped_pe_update [simp]: "mapped mp (c \<lparr> pe := x \<rparr>) = mapped mp c"
  by (simp add: mapped_def)

lemma mapped_keeps: "mapped mp c \<Longrightarrow> keeps c c' \<Longrightarrow> mapped mp c'"
  by (simp add: mapped_def keeps_def)

lemma can_read_keeps: "keeps c c' \<Longrightarrow> pe_can_read c' p n = pe_can_read c p n"
  by (simp add: pe_can_read_def keeps_def)

text \<open>A field of a structure that the bounds check has covered can be read.\<close>

lemma can_read_field:
  assumes "mapped mp c" and "pe_can_read c p n" and "unat p < 0x8000000200000000"
    and "unat n \<le> 112" and "unat d + w \<le> unat n"
  shows "readable mp (p + d) w"
proof -
  from assms(3,4) have "unat p + unat n < 18446744073709551616" by simp
  with assms(1,2) have "readable mp p (unat n)"
    by (rule can_read_readable)
  then show ?thesis
    using mapped_region_ok [OF assms(1)] assms(5) by (rule readable_add)
qed

lemma can_read_load16:
  assumes "mapped mp c" and "pe_can_read c p n" and "unat p < 0x8000000200000000"
    and "unat n \<le> 112" and "unat d + 2 \<le> unat n"
  shows "\<exists>v. load16 mp (p + d) = Some v"
  using can_read_field [OF assms] mapped_region_ok [OF assms(1)] by (rule load16_readable)

lemma can_read_load32:
  assumes "mapped mp c" and "pe_can_read c p n" and "unat p < 0x8000000200000000"
    and "unat n \<le> 112" and "unat d + 4 \<le> unat n"
  shows "\<exists>v. load32 mp (p + d) = Some v"
  using can_read_field [OF assms] mapped_region_ok [OF assms(1)] by (rule load32_readable)

lemma can_read_load64:
  assumes "mapped mp c" and "pe_can_read c p n" and "unat p < 0x8000000200000000"
    and "unat n \<le> 112" and "unat d + 8 \<le> unat n"
  shows "\<exists>v. load64 mp (p + d) = Some v"
  using can_read_field [OF assms] mapped_region_ok [OF assms(1)] by (rule load64_readable)

lemma unat_ptr_add:
  assumes "unat (sp :: ptr) < 0x8000000100000000" and "unat d \<le> 0x100000000"
  shows "unat (sp + d) = unat sp + unat d"
  using assms by (intro unat_plus64) simp

lemma pe_parse_coff_cases:
  assumes m: "mapped mp c" and sp: "unat sp < 0x8000000100000000"
  obtains (missing) "\<not> pe_can_read c (sp + 4) 20"
      "pe_parse_coff mp (sp, c) =
         Some (Inl (LIBPE_E_MISSING_COFF_HEADER, c \<lparr> pe := (pe c) \<lparr> coff_hdr := sp + 4 \<rparr> \<rparr>))"
    | (ok) n where "pe_can_read c (sp + 4) 20"
      "pe_parse_coff mp (sp, c) =
         Some (Inr (sp, c \<lparr> pe := (pe c) \<lparr> coff_hdr := sp + 4, num_sections := n,
                                           optional_hdr_ptr := sp + 24 \<rparr> \<rparr>))"
proof (cases "pe_can_read c (sp + 4) 20")
  case False
  then show ?thesis
    using missing by (simp add: pe_parse_coff_def)
next
  case True
  have "unat (sp + 4) < 0x8000000200000000"
    using unat_ptr_add [OF sp, of 4] sp by simp
  with m True have "\<exists>v. load16 mp (sp + 4 + 2) = Some v"
    by (rule can_read_load16) simp_all
  then obtain n where "coff_NumberOfSections mp (sp + 4) = Some n"
    by (auto simp: coff_NumberOfSections_def)
  with True show ?thesis
    using ok [of n] by (simp add: pe_parse_coff_def)
qed


lemma pe_parse_signature_total:
  assumes m: "mapped mp ctx" and len: "64 \<le> length (m_bytes mp)"
  shows "\<exists>r. pe_parse_signature mp ctx = Some r \<and>
     (case r of
        Inl (e, c) \<Rightarrow> True
      | Inr (sp, c) \<Rightarrow> mapped mp c \<and> unat sp < 0x8000000100000000)"
proof -
  have base: "map_addr ctx = m_base mp"
    using m by (simp add: mapped_def)
  have ok: "region_ok mp"
    using m by (rule mapped_region_ok)
  have hdr: "readable mp (m_base mp) 64"
    using len by (simp add: readable_def)
  have "readable mp (m_base mp) 2"
    using hdr by (rule readable_mono) simp
  then obtain e_magic where mg: "dos_e_magic mp (m_base mp) = Some e_magic"
    using load16_readable [OF _ ok] by (auto simp: dos_e_magic_def)
  have "readable mp (m_base mp + 0x3C) 4"
    using hdr ok by (rule readable_add) simp
  then obtain lf where lf: "dos_e_lfanew mp (m_base mp) = Some lf"
    using load32_readable [OF _ ok] by (auto simp: dos_e_lfanew_def)
  have "unat (m_base mp) < 0x8000000000000000"
    using m by (simp add: mapped_def)
  moreover have "unat (ucast lf :: 64 word) < 0x100000000"
    using unat32_bound [of lf] by (simp add: unat_ucast_32_64)
  ultimately have sp: "unat (m_base mp + ucast lf) < 0x8000000100000000"
    by (subst unat_plus64) simp_all
  show ?thesis
  proof (cases "pe_can_read ctx (m_base mp + ucast lf) 4")
    case False
    then show ?thesis
      using base mg lf by (simp add: pe_parse_signature_def Let_def)
  next
    case True
    from sp have "unat (m_base mp + ucast lf) < 0x8000000200000000" by simp
    with m True have "\<exists>v. load32 mp (m_base mp + ucast lf + 0) = Some v"
      by (rule can_read_load32) simp_all
    then obtain sg where "load32 mp (m_base mp + ucast lf) = Some sg"
      by auto
    then show ?thesis
      using base mg lf True sp m by (simp add: pe_parse_signature_def Let_def)
  qed
qed

lemma pe_parse_optional_total:
  assumes m: "mapped mp c" and opt: "optional_hdr_ptr (pe c) = sp + 24"
    and sp: "unat sp < 0x8000000100000000"
  shows "\<exists>r. pe_parse_optional mp (sp, c) = Some r \<and>
     (case r of
        Inl (e, c') \<Rightarrow> keeps c c' \<and> e \<noteq> LIBPE_E_MISSING_COFF_HEADER
      | Inr (sp', c') \<Rightarrow> sp' = sp \<and> keeps c c')"
proof (cases "pe_can_read c (sp + 24) 2")
  case False
  then show ?thesis
    using opt by (simp add: pe_parse_optional_def keeps_def)
next
  case True
  have b: "unat (sp + 24) < 0x8000000200000000"
    using unat_ptr_add [OF sp, of 24] sp by simp
  from m True b have "\<exists>v. load16 mp (sp + 24 + 0) = Some v"
    by (rule can_read_load16) simp_all
  then obtain ty where ty: "load16 mp (sp + 24) = Some ty"
    by auto
  consider (pe32) "ty = MAGIC_PE32" | (pe64) "ty \<noteq> MAGIC_PE32" "ty = MAGIC_PE64"
    | (other) "ty \<noteq> MAGIC_PE32" "ty \<noteq> MAGIC_PE64"
    by blast
  then show ?thesis
  proof cases
    case other
    then show ?thesis
      using opt True ty by (simp add: pe_parse_optional_def keeps_def)
  next
    case pe32
    show ?thesis
    proof (cases "pe_can_read c (sp + 24) 96")
      case False
      then show ?thesis
        using opt True ty pe32 by (simp add: pe_parse_optional_def keeps_def)
    next
      case r: True
      from m r b have "\<exists>v. load32 mp (sp + 24 + 92) = Some v"
        by (rule can_read_load32) simp_all
      then obtain nd where nd: "opt32_NumberOfRvaAndSizes mp (sp + 24) = Some nd"
        by (auto simp: opt32_NumberOfRvaAndSizes_def)
      from m r b have "\<exists>v. load32 mp (sp + 24 + 16) = Some v"
        by (rule can_read_load32) simp_all
      then obtain ep where ep: "opt_AddressOfEntryPoint mp (sp + 24) = Some ep"
        by (auto simp: opt_AddressOfEntryPoint_def)
      from m r b have "\<exists>v. load32 mp (sp + 24 + 28) = Some v"
        by (rule can_read_load32) simp_all
      then obtain ib where ib: "opt32_ImageBase mp (sp + 24) = Some ib"
        by (auto simp: opt32_ImageBase_def)
      show ?thesis
        using opt True ty pe32 r nd ep ib by (simp add: pe_parse_optional_def keeps_def)
    qed
  next
    case pe64
    show ?thesis
    proof (cases "pe_can_read c (sp + 24) 112")
      case False
      then show ?thesis
        using opt True ty pe64 by (simp add: pe_parse_optional_def keeps_def)
    next
      case r: True
      from m r b have "\<exists>v. load32 mp (sp + 24 + 108) = Some v"
        by (rule can_read_load32) simp_all
      then obtain nd where nd: "opt64_NumberOfRvaAndSizes mp (sp + 24) = Some nd"
        by (auto simp: opt64_NumberOfRvaAndSizes_def)
      from m r b have "\<exists>v. load32 mp (sp + 24 + 16) = Some v"
        by (rule can_read_load32) simp_all
      then obtain ep where ep: "opt_AddressOfEntryPoint mp (sp + 24) = Some ep"
        by (auto simp: opt_AddressOfEntryPoint_def)
      from m r b have "\<exists>v. load64 mp (sp + 24 + 24) = Some v"
        by (rule can_read_load64) simp_all
      then obtain ib where ib: "opt64_ImageBase mp (sp + 24) = Some ib"
        by (auto simp: opt64_ImageBase_def)
      show ?thesis
        using opt True ty pe64 r nd ep ib by (simp add: pe_parse_optional_def keeps_def)
    qed
  qed
qed

lemma pe_parse_tables_total:
  assumes m: "mapped mp c" and coff: "coff_hdr (pe c) = sp + 4"
    and r: "pe_can_read c (sp + 4) 20" and sp: "unat sp < 0x8000000100000000"
  shows "\<exists>e c'. pe_parse_tables mp da sa (sp, c) = Some (e, c') \<and> keeps c c' \<and>
     e \<noteq> LIBPE_E_MISSING_COFF_HEADER"
proof -
  have "unat (sp + 4) < 0x8000000200000000"
    using unat_ptr_add [OF sp, of 4] sp by simp
  with m r have "\<exists>v. load16 mp (sp + 4 + 16) = Some v"
    by (rule can_read_load16) simp_all
  then obtain soh where "coff_SizeOfOptionalHeader mp (sp + 4) = Some soh"
    by (auto simp: coff_SizeOfOptionalHeader_def)
  then show ?thesis
    using coff by (simp add: pe_parse_tables_def keeps_def Let_def)
qed


lemma keeps_trans: "keeps a b \<Longrightarrow> keeps b c \<Longrightarrow> keeps a c"
  by (simp add: keeps_def)

lemma pe_parse_after_signature:
  assumes s: "pe_parse_signature mp ctx = Some (Inr (sp, c1))"
    and m1: "mapped mp c1" and sp: "unat sp < 0x8000000100000000"
  shows "\<exists>e c. pe_parse mp da sa ctx = Some (e, c) \<and>
     keeps (c1 \<lparr> pe := (pe c1) \<lparr> coff_hdr := sp + 4 \<rparr> \<rparr>) c \<and>
     (e = LIBPE_E_MISSING_COFF_HEADER \<longleftrightarrow> \<not> pe_can_read c1 (sp + 4) 20)"
  using m1 sp
proof (cases rule: pe_parse_coff_cases)
  case missing
  with s show ?thesis
    by (simp add: pe_parse_def pe_parse_headers_def and_then_def keeps_def)
next
  case (ok n)
  let ?c2 = "c1 \<lparr> pe := (pe c1) \<lparr> coff_hdr := sp + 4, num_sections := n,
                                    optional_hdr_ptr := sp + 24 \<rparr> \<rparr>"
  have k2: "keeps (c1 \<lparr> pe := (pe c1) \<lparr> coff_hdr := sp + 4 \<rparr> \<rparr>) ?c2"
    by (simp add: keeps_def)
  have m2: "mapped mp ?c2" using m1 by simp
  from pe_parse_optional_total [OF m2 _ sp] obtain r3
    where r3: "pe_parse_optional mp (sp, ?c2) = Some r3"
      and p3: "case r3 of Inl (e, c') \<Rightarrow> keeps ?c2 c' \<and> e \<noteq> LIBPE_E_MISSING_COFF_HEADER
               | Inr (sp', c') \<Rightarrow> sp' = sp \<and> keeps ?c2 c'"
    by auto
  show ?thesis
  proof (cases r3)
    case (Inl a)
    obtain e c' where a: "a = (e, c')" by (cases a)
    from p3 Inl a have "keeps ?c2 c'" and "e \<noteq> LIBPE_E_MISSING_COFF_HEADER" by simp_all
    with s ok r3 Inl a keeps_trans [OF k2] show ?thesis
      by (simp add: pe_parse_def pe_parse_headers_def and_then_def)
  next
    case (Inr b3)
    obtain sp3 c3 where b3: "b3 = (sp3, c3)" by (cases b3)
    from p3 Inr b3 have sp3: "sp3 = sp" and k: "keeps ?c2 c3" by simp_all
    have m3: "mapped mp c3" using m2 k by (rule mapped_keeps)
    have cf: "coff_hdr (pe c3) = sp + 4" using k by (simp add: keeps_def)
    have rd: "pe_can_read c3 (sp + 4) 20"
      using ok(1) can_read_keeps [OF k] by simp
    from pe_parse_tables_total [OF m3 cf rd sp, of da sa] obtain e c'
      where t: "pe_parse_tables mp da sa (sp, c3) = Some (e, c')" and k3: "keeps c3 c'"
        and e: "e \<noteq> LIBPE_E_MISSING_COFF_HEADER" by blast
    have "keeps (c1 \<lparr> pe := (pe c1) \<lparr> coff_hdr := sp + 4 \<rparr> \<rparr>) c'"
      using k2 k k3 by (blast intro: keeps_trans)
    with s ok r3 Inr b3 sp3 t e show ?thesis
      by (simp add: pe_parse_def pe_parse_headers_def and_then_def)
  qed
qed

text \<open>
  Once the DOS header lies inside the mapping, every read of \<open>pe_parse\<close> is inside it.
\<close>

lemma pe_parse_total:
  assumes m: "mapped mp ctx" and len: "64 \<le> length (m_bytes mp)"
  shows "\<exists>e c. pe_parse mp da sa ctx = Some (e, c)"
proof -
  from pe_parse_signature_total [OF m len] obtain r1
    where r1: "pe_parse_signature mp ctx = Some r1"
      and p1: "case r1 of Inl (e, c) \<Rightarrow> True
               | Inr (sp, c) \<Rightarrow> mapped mp c \<and> unat sp < 0x8000000100000000"
    by blast
  show ?thesis
  proof (cases r1)
    case (Inl a)
    with r1 show ?thesis
      by (cases a) (simp add: pe_parse_def pe_parse_headers_def and_then_def)
  next
    case (Inr b)
    obtain sp c1 where b: "b = (sp, c1)" by (cases b)
    from p1 Inr b have m1: "mapped mp c1" and sp: "unat sp < 0x8000000100000000"
      by simp_all
    from r1 Inr b have "pe_parse_signature mp ctx = Some (Inr (sp, c1))" by simp
    from pe_parse_after_signature [OF this m1 sp] show ?thesis by blast
  qed
qed

lemma pe_parse_rest_eq:
  assumes "pe_parse_signature mp ctx = Some (Inr st)"
  shows "pe_parse mp da sa ctx = pe_parse_rest mp da sa st"
  using assms
  by (simp add: pe_parse_def pe_parse_rest_def pe_parse_headers_def and_then_def
      split: option.splits sum.splits)

lemma pe_parse_accepted_signature:
  assumes mz: "dos_e_magic mp (map_addr ctx) = Some MAGIC_MZ"
    and lf: "dos_e_lfanew mp (map_addr ctx) = Some lf"
    and rd: "pe_can_read ctx (map_addr ctx + ucast lf) 4"
    and sg: "load32 mp (map_addr ctx + ucast lf) = Some sg"
    and acc: "sg = SIGNATURE_NE \<or> sg = SIGNATURE_PE"
  shows "pe_parse mp da sa ctx =
     pe_parse_rest mp da sa (map_addr ctx + ucast lf, signature_accepted sg ctx)"
proof -
  have "pe_parse_signature mp ctx =
      Some (Inr (map_addr ctx + ucast lf, signature_accepted sg ctx))"
    using mz lf rd sg acc
    by (auto simp: pe_parse_signature_def signature_accepted_def Let_def)
  then show ?thesis by (rule pe_parse_rest_eq)
qed

lemma pe_parse_coff_signature:
  "pe_parse_coff mp (sp, with_signature s c) =
     map_option (map_sum (apsnd (with_signature s)) (apsnd (with_signature s)))
       (pe_parse_coff mp (sp, c))"
  by (cases "coff_NumberOfSections mp (sp + 4)")
     (simp_all add: pe_parse_coff_def with_signature_def pe_can_read_def Let_def)

lemma pe_parse_optional_signature:
  "pe_parse_optional mp (sp, with_signature s c) =
     map_option (map_sum (apsnd (with_signature s)) (apsnd (with_signature s)))
       (pe_parse_optional mp (sp, c))"
  by (simp add: pe_parse_optional_def with_signature_def pe_can_read_def Let_def
      split: Option.bind_split)

lemma pe_parse_tables_signature:
  "pe_parse_tables mp da sa (sp, with_signature s c) =
     map_option (apsnd (with_signature s)) (pe_parse_tables mp da sa (sp, c))"
  by (auto simp: pe_parse_tables_def with_signature_def Let_def split: Option.bind_split)

lemma pe_parse_rest_signature:
  "pe_parse_rest mp da sa (sp, with_signature s c) =
     map_option (apsnd (with_signature s)) (pe_parse_rest mp da sa (sp, c))"
  by (auto simp: pe_parse_rest_def and_then_def pe_parse_coff_signature
      pe_parse_optional_signature pe_parse_tables_signature
      split: option.splits sum.splits)


lemma pe_parse_tables_built:
  assumes "pe_parse_tables mp da sa (sp, c) = Some (LIBPE_E_OK, c')"
  shows "tables_built c'"
  using assms
  by (auto simp: pe_parse_tables_def tables_built_def Let_def not_less
      split: if_splits Option.bind_splits)

lemma pe_parse_rest_ok:
  assumes "pe_parse_rest mp da sa st = Some (LIBPE_E_OK, c)"
  shows "tables_built c"
proof -
  have no_ok: "\<And>r. and_then (pe_parse_coff mp st) (pe_parse_optional mp) = Some (Inl r)
      \<Longrightarrow> fst r \<noteq> LIBPE_E_OK"
    by (auto simp: and_then_def pe_parse_coff_def pe_parse_optional_def Let_def
        split: option.splits sum.splits if_splits Option.bind_splits prod.splits)
  from assms obtain st' where "pe_parse_tables mp da sa st' = Some (LIBPE_E_OK, c)"
    using no_ok by (auto simp: pe_parse_rest_def split: option.splits sum.splits)
  then show ?thesis
    by (cases st') (auto dest: pe_parse_tables_built)
qed

text \<open>
  C4, as amended. For a mapped file whose signature field reads \<open>NE\0\0\<close>,
  \<open>pe_parse\<close> does not stop at the signature. It returns what the steps after the
  signature (COFF header, classification of the optional header, the two bounds, the two
  pointer tables: the code it shares with \<open>PE\0\0\<close>) return on the bytes that follow,
  which is the error and the context these steps give for a context that recorded
  \<open>PE\0\0\<close>, the recorded signature apart. So it returns
  \<open>LIBPE_E_MISSING_COFF_HEADER\<close> exactly when 20 bytes cannot be read after the
  signature, \<open>LIBPE_E_MISSING_OPTIONAL_HEADER\<close> when they can and the magic after them
  cannot, \<open>LIBPE_E_UNSUPPORTED_IMAGE\<close> when the magic is neither \<open>0x10b\<close> nor
  \<open>0x20b\<close>, and a context it returns with \<open>LIBPE_E_OK\<close> has its counts within the
  bounds and its pointer tables built. Whatever it returns, \<open>pe_is_pe\<close> is false for
  the context afterwards.
\<close>

theorem pe_parse_ne:
  assumes m: "mapped mp ctx"
    and mz: "dos_e_magic mp (map_addr ctx) = Some MAGIC_MZ"
    and lf: "dos_e_lfanew mp (map_addr ctx) = Some lf"
    and rd: "pe_can_read ctx (map_addr ctx + ucast lf) 4"
    and ne: "load32 mp (map_addr ctx + ucast lf) = Some SIGNATURE_NE"
  shows "\<exists>e c. pe_parse mp da sa ctx = Some (e, c) \<and>
     pe_parse_rest mp da sa (map_addr ctx + ucast lf, signature_accepted SIGNATURE_NE ctx)
       = Some (e, c) \<and>
     pe_parse_rest mp da sa (map_addr ctx + ucast lf, signature_accepted SIGNATURE_PE ctx)
       = Some (e, with_signature SIGNATURE_PE c) \<and>
     signature (pe c) = SIGNATURE_NE \<and>
     coff_hdr (pe c) = map_addr ctx + ucast lf + 4 \<and>
     (e = LIBPE_E_MISSING_COFF_HEADER \<longleftrightarrow>
        \<not> pe_can_read ctx (map_addr ctx + ucast lf + 4) 20) \<and>
     (pe_can_read ctx (map_addr ctx + ucast lf + 4) 20 \<and>
      \<not> pe_can_read ctx (map_addr ctx + ucast lf + 24) 2 \<longrightarrow>
        e = LIBPE_E_MISSING_OPTIONAL_HEADER) \<and>
     (pe_can_read ctx (map_addr ctx + ucast lf + 4) 20 \<and>
      pe_can_read ctx (map_addr ctx + ucast lf + 24) 2 \<and>
      load16 mp (map_addr ctx + ucast lf + 24) \<noteq> Some MAGIC_PE32 \<and>
      load16 mp (map_addr ctx + ucast lf + 24) \<noteq> Some MAGIC_PE64 \<longrightarrow>
        e = LIBPE_E_UNSUPPORTED_IMAGE) \<and>
     (e = LIBPE_E_OK \<longrightarrow> tables_built c) \<and>
     pe_is_pe mp c = Some False"
proof -
  let ?sp = "map_addr ctx + ucast lf"
  let ?c1 = "signature_accepted SIGNATURE_NE ctx"
  have s: "pe_parse_signature mp ctx = Some (Inr (?sp, ?c1))"
    using mz lf rd ne by (simp add: pe_parse_signature_def signature_accepted_def Let_def)
  have m1: "mapped mp ?c1" using m by (simp add: signature_accepted_def)
  have cr: "\<And>p n. pe_can_read ?c1 p n = pe_can_read ctx p n"
    by (simp add: signature_accepted_def)
  have "unat (map_addr ctx) < 0x8000000000000000"
    using m by (simp add: mapped_def)
  moreover have "unat (ucast lf :: 64 word) < 0x100000000"
    using unat32_bound [of lf] by (simp add: unat_ucast_32_64)
  ultimately have sp: "unat ?sp < 0x8000000100000000"
    by (subst unat_plus64) simp_all
  from pe_parse_after_signature [OF s m1 sp, of da sa] obtain e c
    where p: "pe_parse mp da sa ctx = Some (e, c)"
      and k: "keeps (?c1 \<lparr> pe := (pe ?c1) \<lparr> coff_hdr := ?sp + 4 \<rparr> \<rparr>) c"
      and e: "e = LIBPE_E_MISSING_COFF_HEADER \<longleftrightarrow> \<not> pe_can_read ?c1 (?sp + 4) 20"
    by blast
  have rest: "pe_parse_rest mp da sa (?sp, ?c1) = Some (e, c)"
    using pe_parse_rest_eq [OF s, of da sa] p by simp
  have "with_signature SIGNATURE_PE ?c1 = signature_accepted SIGNATURE_PE ctx"
    by (simp add: with_signature_def signature_accepted_def)
  with pe_parse_rest_signature [of mp da sa ?sp SIGNATURE_PE ?c1] rest
  have twin: "pe_parse_rest mp da sa (?sp, signature_accepted SIGNATURE_PE ctx)
      = Some (e, with_signature SIGNATURE_PE c)"
    by simp
  from k have sg: "signature (pe c) = SIGNATURE_NE" and cf: "coff_hdr (pe c) = ?sp + 4"
    and dh: "dos_hdr (pe c) = map_addr ctx"
    by (simp_all add: keeps_def signature_accepted_def)
  have "map_addr ctx \<noteq> 0"
    using m by (auto simp: mapped_def)
  with dh sg mz have ispe: "pe_is_pe mp c = Some False"
    by (simp add: pe_is_pe_def SIGNATURE_NE_def SIGNATURE_PE_def)
  have opt_missing: "e = LIBPE_E_MISSING_OPTIONAL_HEADER"
    if a: "pe_can_read ctx (?sp + 4) 20" and b: "\<not> pe_can_read ctx (?sp + 24) 2"
    using m1 sp
  proof (cases rule: pe_parse_coff_cases)
    case missing
    with a cr show ?thesis by simp
  next
    case (ok n)
    with b cr rest show ?thesis
      by (simp add: pe_parse_rest_def and_then_def pe_parse_optional_def)
  qed
  have unsupported: "e = LIBPE_E_UNSUPPORTED_IMAGE"
    if a: "pe_can_read ctx (?sp + 4) 20" and b: "pe_can_read ctx (?sp + 24) 2"
      and t1: "load16 mp (?sp + 24) \<noteq> Some MAGIC_PE32"
      and t2: "load16 mp (?sp + 24) \<noteq> Some MAGIC_PE64"
    using m1 sp
  proof (cases rule: pe_parse_coff_cases)
    case missing
    with a cr show ?thesis by simp
  next
    case (ok n)
    have "unat (?sp + 24) < 0x8000000200000000"
      using unat_ptr_add [OF sp, of 24] sp by simp
    with m b have "\<exists>v. load16 mp (?sp + 24 + 0) = Some v"
      by (rule can_read_load16) simp_all
    then obtain ty where ty: "load16 mp (?sp + 24) = Some ty" by auto
    with t1 t2 have "ty \<noteq> MAGIC_PE32" and "ty \<noteq> MAGIC_PE64" by simp_all
    with ok b cr rest ty show ?thesis
      by (simp add: pe_parse_rest_def and_then_def pe_parse_optional_def)
  qed
  have built: "tables_built c" if "e = LIBPE_E_OK"
    using rest that by (auto dest: pe_parse_rest_ok)
  from p rest twin sg cf e cr opt_missing unsupported built ispe show ?thesis
    by simp
qed

lemma pe_parse_tables_ok:
  assumes "pe_parse_tables mp da sa (sp, c) = Some (LIBPE_E_OK, c')"
  shows "num_directories (pe c') = num_directories (pe c) \<and>
         num_sections (pe c') = num_sections (pe c) \<and>
         \<not> num_directories (pe c) > MAX_DIRECTORIES \<and> \<not> num_sections (pe c) > MAX_SECTIONS"
  using assms
  by (auto simp: pe_parse_tables_def Let_def split: if_splits Option.bind_splits)

text \<open>
  C8. When the file has passed the classification of the optional header, \<open>pe_parse\<close>
  returns \<open>LIBPE_E_TOO_MANY_DIRECTORIES\<close> if the recorded \<open>NumberOfRvaAndSizes\<close>
  exceeds 16, and \<open>LIBPE_E_TOO_MANY_SECTIONS\<close> if it does not and the recorded
  \<open>NumberOfSections\<close> exceeds 96; and every context that \<open>pe_parse\<close> returns with
  \<open>LIBPE_E_OK\<close> has at most 16 directories and at most 96 sections.
\<close>

theorem pe_parse_bounds:
  "(pe_parse_headers mp ctx = Some (Inr (sp, c)) \<longrightarrow>
      (num_directories (pe c) > MAX_DIRECTORIES \<longrightarrow>
         pe_parse mp da sa ctx = Some (LIBPE_E_TOO_MANY_DIRECTORIES, c)) \<and>
      (num_directories (pe c) \<le> MAX_DIRECTORIES \<and> num_sections (pe c) > MAX_SECTIONS \<longrightarrow>
         pe_parse mp da sa ctx = Some (LIBPE_E_TOO_MANY_SECTIONS, c))) \<and>
   (pe_parse mp da sa ctx = Some (LIBPE_E_OK, c') \<longrightarrow>
      unat (pe_directories_count c') \<le> 16 \<and> unat (pe_sections_count c') \<le> 96)"
proof (intro conjI impI)
  assume "pe_parse_headers mp ctx = Some (Inr (sp, c))"
    and "num_directories (pe c) > MAX_DIRECTORIES"
  then show "pe_parse mp da sa ctx = Some (LIBPE_E_TOO_MANY_DIRECTORIES, c)"
    by (simp add: pe_parse_def pe_parse_tables_def)
next
  assume "pe_parse_headers mp ctx = Some (Inr (sp, c))"
    and "num_directories (pe c) \<le> MAX_DIRECTORIES \<and> num_sections (pe c) > MAX_SECTIONS"
  then show "pe_parse mp da sa ctx = Some (LIBPE_E_TOO_MANY_SECTIONS, c)"
    by (simp add: pe_parse_def pe_parse_tables_def not_less [symmetric])
next
  assume ok: "pe_parse mp da sa ctx = Some (LIBPE_E_OK, c')"
  have no_ok: "\<And>r. pe_parse_headers mp ctx = Some (Inl r) \<Longrightarrow> fst r \<noteq> LIBPE_E_OK"
    by (auto simp: pe_parse_headers_def and_then_def pe_parse_signature_def pe_parse_coff_def
        pe_parse_optional_def Let_def split: option.splits sum.splits if_splits Option.bind_splits)
  from ok obtain st where st: "pe_parse_headers mp ctx = Some (Inr st)"
    and t: "pe_parse_tables mp da sa st = Some (LIBPE_E_OK, c')"
    using no_ok by (auto simp: pe_parse_def split: option.splits sum.splits)
  obtain sp0 c0 where "st = (sp0, c0)" by (cases st)
  with t have "\<not> num_directories (pe c') > MAX_DIRECTORIES \<and> \<not> num_sections (pe c') > MAX_SECTIONS"
    using pe_parse_tables_ok [of mp da sa sp0 c0 c'] by simp
  then have "num_directories (pe c') \<le> 16" and "num_sections (pe c') \<le> 96"
    by (simp_all add: MAX_DIRECTORIES_def MAX_SECTIONS_def not_less)
  then show "unat (pe_directories_count c') \<le> 16" and "unat (pe_sections_count c') \<le> 96"
    by (simp_all add: pe_directories_count_def pe_sections_count_def word_le_nat_alt)
qed

lemma mapped_example:
  "0 < unat base \<Longrightarrow> unat base + length bs < 0x8000000000000000 \<Longrightarrow>
   mapped (file_map base bs) (loaded_ctx base bs)"
  by (simp add: mapped_def file_map_def loaded_ctx_def)

text \<open>
  C1. The claim is that every read of \<open>pe_parse\<close> through the mapping comes after a
  successful \<open>pe_can_read\<close> that covers it, the reads of \<open>e_magic\<close> and \<open>e_lfanew\<close>
  included. \<open>pe_parse\<close> reads both fields of the DOS header without a check. For the
  3-byte file \<open>MZ\0\<close> the magic is read inside the mapping and matches; the read of
  \<open>e_lfanew\<close> at offset \<open>0x3C\<close>, which \<open>pe_can_read\<close> would refuse, is outside the
  mapping. (\<open>pe_parse_total\<close> above shows that there is no other such read: with 64
  bytes mapped, \<open>pe_parse\<close> stays inside the mapping.)
\<close>

theorem pe_parse_reads_dos_header_unchecked:
  "mapped (file_map 0x10000 truncated_image) (loaded_ctx 0x10000 truncated_image) \<and>
   dos_e_magic (file_map 0x10000 truncated_image) 0x10000 = Some MAGIC_MZ \<and>
   \<not> pe_can_read (loaded_ctx 0x10000 truncated_image) (0x10000 + 0x3C) 4 \<and>
   dos_e_lfanew (file_map 0x10000 truncated_image) 0x10000 = None \<and>
   pe_parse (file_map 0x10000 truncated_image) True True
     (loaded_ctx 0x10000 truncated_image) = None"
proof -
  have a: "mapped (file_map 0x10000 truncated_image) (loaded_ctx 0x10000 truncated_image)"
    by (rule mapped_example) (simp_all add: truncated_image_def)
  have b: "dos_e_magic (file_map 0x10000 truncated_image) 0x10000 = Some MAGIC_MZ"
    by code_simp
  have c: "\<not> pe_can_read (loaded_ctx 0x10000 truncated_image) (0x10000 + 0x3C) 4"
    by code_simp
  have d: "dos_e_lfanew (file_map 0x10000 truncated_image) 0x10000 = None"
    by code_simp
  have e: "pe_parse (file_map 0x10000 truncated_image) True True
     (loaded_ctx 0x10000 truncated_image) = None"
    by code_simp
  from a b c d e show ?thesis by simp
qed

text \<open>
  C4, as stated, fails: for a file with the signature \<open>NE\0\0\<close>, \<open>pe_parse\<close> reads
  the bytes after the signature as COFF and optional headers and builds the section
  table, and for a file that ends after the signature it returns
  \<open>LIBPE_E_MISSING_COFF_HEADER\<close>, the error of the COFF header step.
\<close>

theorem pe_parse_ne_counterexample:
  "load32 (file_map 0x10000 ne_image) 0x10040 = Some SIGNATURE_NE \<and>
   map_option fst (pe_parse (file_map 0x10000 ne_image) True True
     (loaded_ctx 0x10000 ne_image)) = Some LIBPE_E_OK \<and>
   coff_hdr (pe (parsed_ctx 0x10000 ne_image)) = 0x10044 \<and>
   num_sections (pe (parsed_ctx 0x10000 ne_image)) = 1 \<and>
   oh_type (optional_hdr (pe (parsed_ctx 0x10000 ne_image))) = MAGIC_PE32 \<and>
   entrypoint (pe (parsed_ctx 0x10000 ne_image)) = 0x1000 \<and>
   sections (pe (parsed_ctx 0x10000 ne_image)) = Some [0x100B8] \<and>
   load32 (file_map 0x10000 ne_short_image) 0x10040 = Some SIGNATURE_NE \<and>
   map_option fst (pe_parse (file_map 0x10000 ne_short_image) True True
     (loaded_ctx 0x10000 ne_short_image)) = Some LIBPE_E_MISSING_COFF_HEADER"
  by code_simp


theorem pe_parse_ne_witness:
  "mapped (file_map 0x10000 ne_image) (loaded_ctx 0x10000 ne_image) \<and>
   load32 (file_map 0x10000 ne_image) (0x10000 + 0x40) = Some SIGNATURE_NE \<and>
   pe_parse (file_map 0x10000 ne_image) True True (loaded_ctx 0x10000 ne_image)
     = Some (LIBPE_E_OK, parsed_ctx 0x10000 ne_image) \<and>
   pe_parse_rest (file_map 0x10000 ne_image) True True
       (0x10040, signature_accepted SIGNATURE_PE (loaded_ctx 0x10000 ne_image))
     = Some (LIBPE_E_OK, with_signature SIGNATURE_PE (parsed_ctx 0x10000 ne_image)) \<and>
   signature (pe (parsed_ctx 0x10000 ne_image)) = SIGNATURE_NE \<and>
   tables_built (parsed_ctx 0x10000 ne_image) \<and>
   pe_is_pe (file_map 0x10000 ne_image) (parsed_ctx 0x10000 ne_image) = Some False"
proof -
  have base: "map_addr (loaded_ctx 0x10000 ne_image) = 0x10000"
    by (simp add: loaded_ctx_def)
  have m: "mapped (file_map 0x10000 ne_image) (loaded_ctx 0x10000 ne_image)"
    by (rule mapped_example)
       (simp_all add: ne_image_def dos_image_def coff_opt32_def section_bytes_def
          le16_def le32_def)
  have mz: "dos_e_magic (file_map 0x10000 ne_image) (map_addr (loaded_ctx 0x10000 ne_image))
      = Some MAGIC_MZ"
    by code_simp
  have lf: "dos_e_lfanew (file_map 0x10000 ne_image) (map_addr (loaded_ctx 0x10000 ne_image))
      = Some 0x40"
    by code_simp
  have rd: "pe_can_read (loaded_ctx 0x10000 ne_image)
      (map_addr (loaded_ctx 0x10000 ne_image) + ucast (0x40 :: 32 word)) 4"
    by code_simp
  have ne: "load32 (file_map 0x10000 ne_image)
      (map_addr (loaded_ctx 0x10000 ne_image) + ucast (0x40 :: 32 word)) = Some SIGNATURE_NE"
    by code_simp
  have ok: "pe_parse (file_map 0x10000 ne_image) True True (loaded_ctx 0x10000 ne_image)
      = Some (LIBPE_E_OK, parsed_ctx 0x10000 ne_image)"
    by code_simp
  from pe_parse_ne [OF m mz lf rd ne, of True True] ok m ne base
  show ?thesis by auto
qed

theorem pe_parse_bounds_witness:
  "map_option fst (pe_parse (file_map 0x10000 dirs17_image) True True
      (loaded_ctx 0x10000 dirs17_image)) = Some LIBPE_E_TOO_MANY_DIRECTORIES \<and>
   map_option fst (pe_parse (file_map 0x10000 secs97_image) True True
      (loaded_ctx 0x10000 secs97_image)) = Some LIBPE_E_TOO_MANY_SECTIONS \<and>
   map_option fst (pe_parse (file_map 0x10000 (pe32_image [sec_text])) True True
      (loaded_ctx 0x10000 (pe32_image [sec_text]))) = Some LIBPE_E_OK \<and>
   unat (pe_directories_count (parsed_ctx 0x10000 (pe32_image [sec_text]))) \<le> 16 \<and>
   unat (pe_sections_count (parsed_ctx 0x10000 (pe32_image [sec_text]))) \<le> 96"
proof -
  have h1: "pe_parse_headers (file_map 0x10000 dirs17_image) (loaded_ctx 0x10000 dirs17_image)
      = Some (Inr (0x10040, headers_ctx 0x10000 dirs17_image))"
    by code_simp
  have d1: "num_directories (pe (headers_ctx 0x10000 dirs17_image)) > MAX_DIRECTORIES"
    by code_simp
  have h2: "pe_parse_headers (file_map 0x10000 secs97_image) (loaded_ctx 0x10000 secs97_image)
      = Some (Inr (0x10040, headers_ctx 0x10000 secs97_image))"
    by code_simp
  have d2: "num_directories (pe (headers_ctx 0x10000 secs97_image)) \<le> MAX_DIRECTORIES \<and>
      num_sections (pe (headers_ctx 0x10000 secs97_image)) > MAX_SECTIONS"
    by code_simp
  have h3: "pe_parse (file_map 0x10000 (pe32_image [sec_text])) True True
      (loaded_ctx 0x10000 (pe32_image [sec_text]))
      = Some (LIBPE_E_OK, parsed_ctx 0x10000 (pe32_image [sec_text]))"
    by code_simp
  from pe_parse_bounds [where mp = "file_map 0x10000 dirs17_image"
      and ctx = "loaded_ctx 0x10000 dirs17_image" and sp = "0x10040"
      and c = "headers_ctx 0x10000 dirs17_image" and da = True and sa = True] h1 d1
  have a: "pe_parse (file_map 0x10000 dirs17_image) True True (loaded_ctx 0x10000 dirs17_image)
      = Some (LIBPE_E_TOO_MANY_DIRECTORIES, headers_ctx 0x10000 dirs17_image)"
    by blast
  from pe_parse_bounds [where mp = "file_map 0x10000 secs97_image"
      and ctx = "loaded_ctx 0x10000 secs97_image" and sp = "0x10040"
      and c = "headers_ctx 0x10000 secs97_image" and da = True and sa = True] h2 d2
  have b: "pe_parse (file_map 0x10000 secs97_image) True True (loaded_ctx 0x10000 secs97_image)
      = Some (LIBPE_E_TOO_MANY_SECTIONS, headers_ctx 0x10000 secs97_image)"
    by blast
  from pe_parse_bounds [where mp = "file_map 0x10000 (pe32_image [sec_text])"
      and ctx = "loaded_ctx 0x10000 (pe32_image [sec_text])" and da = True and sa = True
      and c' = "parsed_ctx 0x10000 (pe32_image [sec_text])"] h3
  have c: "unat (pe_directories_count (parsed_ctx 0x10000 (pe32_image [sec_text]))) \<le> 16 \<and>
      unat (pe_sections_count (parsed_ctx 0x10000 (pe32_image [sec_text]))) \<le> 96"
    by blast
  from a b c h3 show ?thesis by simp
qed

text \<open>
  C9, as stated, fails: \<open>pe_unload\<close> of a zero-initialized context ends with
  \<open>CRYPTO_cleanup_all_ex_data\<close> and \<open>EVP_cleanup\<close> (lines 162 and 163), which are
  not guarded by anything in the context and tear down state of the whole process.
\<close>

theorem pe_unload_zero_counterexample:
  "filter tears_down_crypto (snd (snd (pe_unload 0 pe_ctx_zero))) =
     [Call_CRYPTO_cleanup_all_ex_data, Call_EVP_cleanup]"
  by (simp add: pe_unload_def cleanup_cached_data_def pe_ctx_zero_def pe_file_zero_def
      pe_cached_data_zero_def tears_down_crypto_def)

text \<open>
  C9, as amended. \<open>pe_unload\<close> of a zero-initialized context returns \<open>LIBPE_E_OK\<close>
  and leaves the context all-zero; no stream is closed and no mapping is unmapped. The
  calls it makes are three times \<open>free(NULL)\<close>, the six deallocators of the cache
  slots, each with a \<open>NULL\<close> payload, and the two clean-up calls of the cryptographic
  library, which it makes whatever the context holds.
\<close>

theorem pe_unload_zero:
  "pe_unload munmap_ret pe_ctx_zero =
     (LIBPE_E_OK, pe_ctx_zero,
      [Call_free_path None, Call_free_table None, Call_free_table None,
       Call_pe_imports_dealloc 0, Call_pe_exports_dealloc 0,
       Call_pe_hash_headers_dealloc 0, Call_pe_hash_sections_dealloc 0,
       Call_pe_hash_dealloc 0, Call_pe_resources_dealloc 0,
       Call_CRYPTO_cleanup_all_ex_data, Call_EVP_cleanup]) \<and>
   filter is_fclose (snd (snd (pe_unload munmap_ret pe_ctx_zero))) = [] \<and>
   filter is_munmap (snd (snd (pe_unload munmap_ret pe_ctx_zero))) = []"
  by (simp add: pe_unload_def cleanup_cached_data_def pe_ctx_zero_def pe_file_zero_def
      pe_cached_data_zero_def is_fclose_def is_munmap_def)

end
